theory Spec2Isabelle
  imports Main "HOL-Library.Word" "HOL-Library.Sublist" "HOL-Library.Log_Nat"
begin

section \<open>JavaScript numbers\<close>

text \<open>
  Every number of the program is an IEEE 754 double. A finite double is a rational, and
  an arithmetic operation returns the exact result rounded to the nearest double, ties to
  even. \<open>fl\<close> is that rounding for the normal range (53 significant bits); overflow to
  Infinity and subnormal results lie far outside anything the audio code computes and are
  not modelled. Integers below \<open>2 ^ 53\<close> are doubles, so lengths and offsets are kept as
  \<open>nat\<close> or \<open>int\<close> and only the millisecond-to-byte conversions go through \<open>fl\<close>.
\<close>

definition floor_log2 :: "rat \<Rightarrow> int" where
  "floor_log2 a =
     (case quotient_of a of (p, q) \<Rightarrow>
        (let k0 = bitlen p - bitlen q in if 2 powi k0 \<le> a then k0 else k0 - 1))"

definition roundTiesToEven :: "rat \<Rightarrow> int" where
  "roundTiesToEven x =
     (let f = \<lfloor>x\<rfloor>; d = x - of_int f
      in if d < 1 / 2 then f else if 1 / 2 < d then f + 1 else if even f then f else f + 1)"

definition fl :: "rat \<Rightarrow> rat" where
  "fl x = (if x = 0 then 0
           else (let ulp = 2 powi (floor_log2 \<bar>x\<bar> - 52)
                 in of_int (roundTiesToEven (x / ulp)) * ulp))"

definition js_add :: "rat \<Rightarrow> rat \<Rightarrow> rat" where
  "js_add a b = fl (a + b)"

definition js_sub :: "rat \<Rightarrow> rat \<Rightarrow> rat" where
  "js_sub a b = fl (a - b)"

definition js_mul :: "rat \<Rightarrow> rat \<Rightarrow> rat" where
  "js_mul a b = fl (a * b)"

definition js_div :: "rat \<Rightarrow> rat \<Rightarrow> rat" where
  "js_div a b = fl (a / b)"

text \<open>\<^verbatim>\<open>ToIntegerOrInfinity\<close> of the language standard: truncation towards zero.\<close>

definition ToIntegerOrInfinity :: "rat \<Rightarrow> int" where
  "ToIntegerOrInfinity x = (if 0 \<le> x then \<lfloor>x\<rfloor> else \<lceil>x\<rceil>)"


section \<open>Bytes, typed arrays and the DataView\<close>

text \<open>
  Bytes are 8-bit words. A typed array or an \<^verbatim>\<open>ArrayBuffer\<close> is a list of bytes; a write
  that JavaScript performs in place returns the updated list, and every exception the
  source can raise is a value of \<open>error\<close>: the \<^verbatim>\<open>Error\<close> thrown by the merge handlers when no
  line qualifies, the \<^verbatim>\<open>RangeError\<close> of typed arrays and views, and the
  \<^verbatim>\<open>InvalidCharacterError\<close> of \<^verbatim>\<open>atob\<close>.
\<close>

type_synonym byte = "8 word"

datatype error = NoSuccessfulLines | RangeError | InvalidCharacterError

definition bind_e :: "error + 'a \<Rightarrow> ('a \<Rightarrow> error + 'b) \<Rightarrow> error + 'b" where
  "bind_e m f = (case m of Inl e \<Rightarrow> Inl e | Inr x \<Rightarrow> f x)"

fun map_e :: "('a \<Rightarrow> error + 'b) \<Rightarrow> 'a list \<Rightarrow> error + 'b list" where
  "map_e f [] = Inr []"
| "map_e f (x # xs) = bind_e (f x) (\<lambda>y. bind_e (map_e f xs) (\<lambda>ys. Inr (y # ys)))"

text \<open>\<^verbatim>\<open>new Uint8Array(n)\<close>: zero-filled; a negative length raises.\<close>

definition new_Uint8Array :: "int \<Rightarrow> error + byte list" where
  "new_Uint8Array n = (if n < 0 then Inl RangeError else Inr (replicate (nat n) 0))"

text \<open>
  \<^verbatim>\<open>target.set(source, offset)\<close> for an integral offset: raises when the source does not fit,
  also when the source is empty and the offset lies beyond the end of the target.
\<close>

definition set_bytes :: "byte list \<Rightarrow> byte list \<Rightarrow> nat \<Rightarrow> error + byte list" where
  "set_bytes target source off =
     (if length source + off > length target then Inl RangeError
      else Inr (take off target @ source @ drop (off + length source) target))"

text \<open>\<^verbatim>\<open>target.set(source, offset)\<close> for any number: the offset is truncated first.\<close>

definition typedArray_set :: "byte list \<Rightarrow> byte list \<Rightarrow> rat \<Rightarrow> error + byte list" where
  "typedArray_set target source offset =
     (let targetOffset = ToIntegerOrInfinity offset
      in if targetOffset < 0 then Inl RangeError
         else set_bytes target source (nat targetOffset))"

text \<open>
  \<^verbatim>\<open>a.slice(start, end)\<close>: both bounds are truncated, a negative bound counts from the end
  of the array, and the result is clamped to the array.
\<close>

definition typedArray_slice :: "byte list \<Rightarrow> rat \<Rightarrow> rat \<Rightarrow> byte list" where
  "typedArray_slice a start end =
     (let len = int (length a);
          relativeStart = ToIntegerOrInfinity start;
          k = (if relativeStart < 0 then max (len + relativeStart) 0 else min relativeStart len);
          relativeEnd = ToIntegerOrInfinity end;
          final = (if relativeEnd < 0 then max (len + relativeEnd) 0 else min relativeEnd len);
          count = max (final - k) 0
      in take (nat count) (drop (nat k) a))"

definition le16 :: "16 word \<Rightarrow> byte list" where
  "le16 w = [ucast w, ucast (drop_bit 8 w)]"

definition le32 :: "32 word \<Rightarrow> byte list" where
  "le32 w = [ucast w, ucast (drop_bit 8 w), ucast (drop_bit 16 w), ucast (drop_bit 24 w)]"

text \<open>
  The DataView setters convert the value modulo the field width (\<open>of_nat\<close> into the word
  type) and raise when the field does not fit in the view. The 16- and 32-bit setters are
  the little-endian ones (the source passes \<^verbatim>\<open>true\<close>).
\<close>

definition setUint8 :: "byte list \<Rightarrow> nat \<Rightarrow> nat \<Rightarrow> error + byte list" where
  "setUint8 view byteOffset v =
     (if byteOffset + 1 > length view then Inl RangeError
      else Inr (view[byteOffset := of_nat v]))"

definition setUint16 :: "byte list \<Rightarrow> nat \<Rightarrow> nat \<Rightarrow> error + byte list" where
  "setUint16 view byteOffset v =
     (if byteOffset + 2 > length view then Inl RangeError
      else set_bytes view (le16 (of_nat v)) byteOffset)"

definition setUint32 :: "byte list \<Rightarrow> nat \<Rightarrow> nat \<Rightarrow> error + byte list" where
  "setUint32 view byteOffset v =
     (if byteOffset + 4 > length view then Inl RangeError
      else set_bytes view (le32 (of_nat v)) byteOffset)"


section \<open>audioUtils: decode and pcmToWavBlob\<close>

text \<open>
  \<^verbatim>\<open>atob\<close> is the platform's base64 decoder (the forgiving-base64 decode of the HTML
  standard): ASCII whitespace is dropped, one or two trailing \<open>=\<close> are dropped when the
  length is a multiple of four, a remaining length of \<open>1\<close> modulo \<open>4\<close> or a character outside
  the alphabet raises, and every group of four characters gives three bytes (a final group of
  two or three characters gives one or two).
\<close>

definition b64_value :: "char \<Rightarrow> nat option" where
  "b64_value c =
     (let n = (of_char c :: nat)
      in if 65 \<le> n \<and> n \<le> 90 then Some (n - 65)
         else if 97 \<le> n \<and> n \<le> 122 then Some (n - 71)
         else if 48 \<le> n \<and> n \<le> 57 then Some (n + 4)
         else if n = 43 then Some 62
         else if n = 47 then Some 63
         else None)"

fun b64_groups :: "nat list \<Rightarrow> string" where
  "b64_groups (a # b # c # d # rest) =
     char_of (a * 4 + b div 16) # char_of ((b mod 16) * 16 + c div 4) #
     char_of ((c mod 4) * 64 + d) # b64_groups rest"
| "b64_groups [a, b, c] = [char_of (a * 4 + b div 16), char_of ((b mod 16) * 16 + c div 4)]"
| "b64_groups [a, b] = [char_of (a * 4 + b div 16)]"
| "b64_groups [a] = []"
| "b64_groups [] = []"

definition strip_padding :: "string \<Rightarrow> string" where
  "strip_padding s =
     (if length s mod 4 = 0 \<and> s \<noteq> [] \<and> last s = CHR ''=''
      then (if butlast s \<noteq> [] \<and> last (butlast s) = CHR ''='' then butlast (butlast s)
            else butlast s)
      else s)"

definition atob :: "string \<Rightarrow> string option" where
  "atob s =
     (let s1 = filter (\<lambda>c. (of_char c :: nat) \<notin> {9, 10, 12, 13, 32}) s;
          s2 = strip_padding s1
      in if length s2 mod 4 = 1 then None
         else map_option b64_groups (those (map b64_value s2)))"

text \<open>
  \<^verbatim>\<open>decode\<close> copies the code units of the binary string into a \<^verbatim>\<open>Uint8Array\<close>, one byte
  each.
\<close>

definition decode :: "string \<Rightarrow> error + byte list" where
  "decode base64 =
     (case atob base64 of
        None \<Rightarrow> Inl InvalidCharacterError
      | Some binaryString \<Rightarrow> Inr (map of_char binaryString))"

fun writeString :: "byte list \<Rightarrow> nat \<Rightarrow> string \<Rightarrow> error + byte list" where
  "writeString view off [] = Inr view"
| "writeString view off (c # str) =
     bind_e (setUint8 view off (of_char c)) (\<lambda>view'. writeString view' (off + 1) str)"

text \<open>The result is the content of the \<^verbatim>\<open>Blob\<close>: the bytes of the buffer.\<close>

definition pcmToWavBlob :: "byte list \<Rightarrow> error + byte list" where
  "pcmToWavBlob pcmData =
     (let sampleRate = (24000::nat);
          numChannels = (1::nat);
          bitsPerSample = (16::nat);
          bytesPerSample = bitsPerSample div 8;
          blockAlign = numChannels * bytesPerSample;
          byteRate = sampleRate * blockAlign;
          dataSize = length pcmData;
          buffer = replicate (44 + dataSize) (0::byte)
      in bind_e (writeString buffer 0 ''RIFF'') (\<lambda>v1.
         bind_e (setUint32 v1 4 (36 + dataSize)) (\<lambda>v2.
         bind_e (writeString v2 8 ''WAVE'') (\<lambda>v3.
         bind_e (writeString v3 12 ''fmt '') (\<lambda>v4.
         bind_e (setUint32 v4 16 16) (\<lambda>v5.
         bind_e (setUint16 v5 20 1) (\<lambda>v6.
         bind_e (setUint16 v6 22 numChannels) (\<lambda>v7.
         bind_e (setUint32 v7 24 sampleRate) (\<lambda>v8.
         bind_e (setUint32 v8 28 byteRate) (\<lambda>v9.
         bind_e (setUint16 v9 32 blockAlign) (\<lambda>v10.
         bind_e (setUint16 v10 34 bitsPerSample) (\<lambda>v11.
         bind_e (writeString v11 36 ''data'') (\<lambda>v12.
         bind_e (setUint32 v12 40 dataSize) (\<lambda>v13.
         typedArray_set v13 pcmData 44))))))))))))))"

text \<open>The data sub-chunk of a WAV byte sequence: everything after the 44-byte header.\<close>

definition data_subchunk :: "byte list \<Rightarrow> byte list" where
  "data_subchunk wav = drop 44 wav"

text \<open>The little-endian 32-bit field at a byte offset, read back as a number.\<close>

definition getUint32 :: "byte list \<Rightarrow> nat \<Rightarrow> nat" where
  "getUint32 view off =
     unat (view ! off) + 256 * unat (view ! (off + 1)) + 65536 * unat (view ! (off + 2))
       + 16777216 * unat (view ! (off + 3))"


section \<open>Lines, file batches and the application state\<close>

text \<open>
  \<^verbatim>\<open>LineStatus\<close> and \<^verbatim>\<open>FileStatus\<close> are the same four string literals. Optional fields are
  options. The millisecond stamps are the numbers \<^verbatim>\<open>parseSrtTimestamp\<close> computes from the
  fields of a cue; for fields written with digits only, as in a subtitle file, they are
  integers, and they are integers here.
\<close>

datatype Status = Pending | Converting | Done | Error

record ParsedLine =
  id_line :: string
  text_line :: string
  status_line :: Status
  audioData :: "string option"
  error_line :: "string option"
  startTimeMs :: "int option"
  endTimeMs :: "int option"

record FileState =
  id_file :: string
  name :: string
  status_file :: Status
  lines :: "ParsedLine list"
  error_file :: "string option"
  isZipping :: "bool option"
  isMerging :: "bool option"

text \<open>
  The component state the handlers read and write. \<open>globalError\<close> keeps the kind of the
  error whose message the handler shows.
\<close>

record AppState =
  files :: "FileState list"
  isKeySaved :: bool
  convertingFileId :: "string option"
  isBatchConvertingAll :: bool
  globalError :: "error option"


section \<open>convertLineWithRetries\<close>

definition RETRY_ATTEMPTS :: nat where
  "RETRY_ATTEMPTS = 5"

definition RETRY_DELAY_MS :: nat where
  "RETRY_DELAY_MS = 2000"

definition constructApiText :: "string \<Rightarrow> string \<Rightarrow> string" where
  "constructApiText voicePrompt baseText =
     (if voicePrompt \<noteq> [] then voicePrompt @ '' '' @ baseText else baseText)"

text \<open>\<^verbatim>\<open>s.includes(pattern)\<close>: the pattern occurs in \<open>s\<close> as a contiguous substring.\<close>

fun str_includes :: "string \<Rightarrow> string \<Rightarrow> bool" where
  "str_includes [] pattern = (pattern = [])"
| "str_includes (c # s) pattern = (prefix pattern (c # s) \<or> str_includes s pattern)"

text \<open>
  The two network services of one run. Each answers with \<open>Inr\<close> of its result or \<open>Inl\<close> of
  the message of the \<^verbatim>\<open>Error\<close> it throws. The first argument is the number of the attempt
  during which the call is made, so that a service may answer the same text differently
  each time; the voice and the API key are fixed during a run and are part of the service.
\<close>

record Collaborators =
  textToSpeech :: "nat \<Rightarrow> string \<Rightarrow> string + string"
  rewriteText :: "nat \<Rightarrow> string \<Rightarrow> string + string"

text \<open>
  What the run publishes for its line through \<^verbatim>\<open>setFiles\<close>: the five object spreads of the
  source.
\<close>

datatype patch =
    SetConverting
  | SetDone string string
  | SetRewriting
  | SetRewritten string
  | SetError string string

fun apply_patch :: "patch \<Rightarrow> ParsedLine \<Rightarrow> ParsedLine" where
  "apply_patch SetConverting l = l\<lparr>status_line := Converting, error_line := None\<rparr>"
| "apply_patch (SetDone audio textToProcess) l =
     l\<lparr>status_line := Done, audioData := Some audio, text_line := textToProcess\<rparr>"
| "apply_patch SetRewriting l =
     l\<lparr>error_line := Some ''Content blocked. Attempting to rewrite...''\<rparr>"
| "apply_patch (SetRewritten rewrittenText) l =
     l\<lparr>text_line := rewrittenText, error_line := None\<rparr>"
| "apply_patch (SetError finalError textToProcess) l =
     l\<lparr>status_line := Error, error_line := Some finalError, text_line := textToProcess\<rparr>"

text \<open>
  The observable steps of a run, in order: a synthesis call (text sent, answer), a rewrite
  call (text sent, answer), a delay, a published patch.
\<close>

datatype event =
    Synth string "string + string"
  | Rewrite string "string + string"
  | Delay nat
  | Publish patch

text \<open>The end of the \<^verbatim>\<open>catch\<close> block: wait before the next attempt, or record the failure.\<close>

definition retryOrFail :: "nat \<Rightarrow> string \<Rightarrow> bool \<Rightarrow> string \<Rightarrow> event list" where
  "retryOrFail attempt textToProcess hasBeenRewritten message =
     (if attempt < RETRY_ATTEMPTS then [Delay RETRY_DELAY_MS]
      else (let finalError =
                  (if hasBeenRewritten
                   then ''The rewritten text was also blocked or failed. Last error: '' @ message
                   else message)
            in [Publish (SetError finalError textToProcess)]))"

text \<open>The \<^verbatim>\<open>for\<close> loop, from a given attempt with the current values of the two locals.\<close>

function attempts :: "Collaborators \<Rightarrow> string \<Rightarrow> nat \<Rightarrow> string \<Rightarrow> bool \<Rightarrow> event list" where
  "attempts env voicePrompt attempt textToProcess hasBeenRewritten =
     (if attempt \<le> RETRY_ATTEMPTS then
        (let textToSend = constructApiText voicePrompt textToProcess
         in case textToSpeech env attempt textToSend of
              Inr audio \<Rightarrow>
                [Synth textToSend (Inr audio), Publish (SetDone audio textToProcess)]
            | Inl message \<Rightarrow>
                Synth textToSend (Inl message) #
                (if str_includes message ''Content blocked'' \<and> \<not> hasBeenRewritten then
                   Publish SetRewriting #
                   (case rewriteText env attempt textToProcess of
                      Inr rewrittenText \<Rightarrow>
                        Rewrite textToProcess (Inr rewrittenText) #
                        Publish (SetRewritten rewrittenText) #
                        attempts env voicePrompt (attempt + 1) rewrittenText True
                    | Inl rewriteError \<Rightarrow>
                        Rewrite textToProcess (Inl rewriteError) #
                        retryOrFail attempt textToProcess True message @
                        attempts env voicePrompt (attempt + 1) textToProcess True)
                 else
                   retryOrFail attempt textToProcess hasBeenRewritten message @
                   attempts env voicePrompt (attempt + 1) textToProcess hasBeenRewritten))
      else [])"
  by pat_completeness auto
termination
  by (relation "measure (\<lambda>(env, voicePrompt, attempt, textToProcess, hasBeenRewritten).
                  RETRY_ATTEMPTS + 1 - attempt)") auto

definition convertLineWithRetries :: "Collaborators \<Rightarrow> string \<Rightarrow> ParsedLine \<Rightarrow> event list" where
  "convertLineWithRetries env voicePrompt line =
     Publish SetConverting # attempts env voicePrompt 1 (text_line line) False"

text \<open>Views of a run: its service calls, and its published patches.\<close>

fun is_Synth :: "event \<Rightarrow> bool" where
  "is_Synth (Synth t r) = True"
| "is_Synth e = False"

fun is_Rewrite :: "event \<Rightarrow> bool" where
  "is_Rewrite (Rewrite t r) = True"
| "is_Rewrite e = False"

definition calls :: "event list \<Rightarrow> event list" where
  "calls evs = filter (\<lambda>e. is_Synth e \<or> is_Rewrite e) evs"

fun patches :: "event list \<Rightarrow> patch list" where
  "patches [] = []"
| "patches (Publish p # evs) = p # patches evs"
| "patches (e # evs) = patches evs"

text \<open>The statuses a line shows after each published patch of a run.\<close>

fun statuses :: "ParsedLine \<Rightarrow> patch list \<Rightarrow> Status list" where
  "statuses l [] = []"
| "statuses l (p # ps) = status_line (apply_patch p l) # statuses (apply_patch p l) ps"


section \<open>State updates, handleRetryLine and handleBatchConvert\<close>

text \<open>
  The functional updates passed to the state setters. \<open>LineUpdate\<close> is the update of
  \<^verbatim>\<open>convertLineWithRetries\<close> (every line of the file with the given id is patched),
  \<open>Recount\<close> the one at the end of \<^verbatim>\<open>handleRetryLine\<close>.
\<close>

datatype update =
    LineUpdate string string patch
  | FileStatus string Status
  | Recount string
  | ConvertingFileId "string option"

fun apply_update :: "update \<Rightarrow> AppState \<Rightarrow> AppState" where
  "apply_update (LineUpdate fileId lineId p) st =
     st\<lparr>files := map (\<lambda>f. if id_file f \<noteq> fileId then f
                            else f\<lparr>lines := map (\<lambda>l. if id_line l = lineId then apply_patch p l else l)
                                               (lines f)\<rparr>)
                     (files st)\<rparr>"
| "apply_update (FileStatus fileId s) st =
     st\<lparr>files := map (\<lambda>f. if id_file f = fileId then f\<lparr>status_file := s\<rparr> else f) (files st)\<rparr>"
| "apply_update (Recount fileId) st =
     st\<lparr>files := map (\<lambda>f. if id_file f \<noteq> fileId then f
                            else (let doneCount = length (filter (\<lambda>l. status_line l = Done) (lines f));
                                      errorCount = length (filter (\<lambda>l. status_line l = Error) (lines f))
                                  in if doneCount + errorCount = length (lines f)
                                     then f\<lparr>status_file := Done\<rparr> else f))
                     (files st)\<rparr>"
| "apply_update (ConvertingFileId v) st = st\<lparr>convertingFileId := v\<rparr>"

definition run_updates :: "update list \<Rightarrow> AppState \<Rightarrow> AppState" where
  "run_updates us st = fold apply_update us st"

definition lineUpdates :: "string \<Rightarrow> ParsedLine \<Rightarrow> event list \<Rightarrow> update list" where
  "lineUpdates fileId line evs = map (LineUpdate fileId (id_line line)) (patches evs)"

definition handleRetryLine ::
  "Collaborators \<Rightarrow> string \<Rightarrow> AppState \<Rightarrow> string \<Rightarrow> string \<Rightarrow> update list" where
  "handleRetryLine env voicePrompt st fileId lineId =
     (if \<not> isKeySaved st then []
      else case find (\<lambda>f. id_file f = fileId) (files st) of
             None \<Rightarrow> []
           | Some file \<Rightarrow>
               (case find (\<lambda>l. id_line l = lineId) (lines file) of
                  None \<Rightarrow> []
                | Some line \<Rightarrow>
                    if convertingFileId st \<noteq> None \<or> isBatchConvertingAll st then []
                    else lineUpdates fileId line (convertLineWithRetries env voicePrompt line)
                         @ [Recount fileId]))"

text \<open>
  The runs of a batch are started together and proceed concurrently. A schedule names, step
  by step, the run whose next update takes effect; whatever the schedule leaves over follows
  in line order. Every order in which the updates of the runs can take effect is the
  interleaving of some schedule.
\<close>

fun interleave :: "nat list \<Rightarrow> 'a list list \<Rightarrow> 'a list" where
  "interleave [] xss = concat xss"
| "interleave (i # sched) xss =
     (if i < length xss
      then (case xss ! i of
              [] \<Rightarrow> interleave sched xss
            | x # xs \<Rightarrow> x # interleave sched (xss[i := xs]))
      else interleave sched xss)"

text \<open>
  \<^verbatim>\<open>handleBatchConvert\<close>: the \<open>i\<close>-th line's run talks to the services \<open>envs i\<close>. Each
  run publishes its first patch when it is started, before any service answers; the other
  updates interleave.
\<close>

definition handleBatchConvert ::
  "(nat \<Rightarrow> Collaborators) \<Rightarrow> string \<Rightarrow> nat list \<Rightarrow> AppState \<Rightarrow> string \<Rightarrow> update list" where
  "handleBatchConvert envs voicePrompt sched st fileId =
     (if \<not> isKeySaved st then []
      else case find (\<lambda>f. id_file f = fileId) (files st) of
             None \<Rightarrow> []
           | Some fileToConvert \<Rightarrow>
               (let runs = map (\<lambda>(i, line). lineUpdates fileId line
                                   (convertLineWithRetries (envs i) voicePrompt line))
                               (enumerate 0 (lines fileToConvert))
                in [ConvertingFileId (Some fileId), FileStatus fileId Converting]
                   @ concat (map (take 1) runs)
                   @ interleave sched (map (drop 1) runs)
                   @ [FileStatus fileId Done, ConvertingFileId None]))"


section \<open>The merge handlers\<close>

text \<open>A string field is truthy when it is present and not empty.\<close>

definition truthy :: "string option \<Rightarrow> bool" where
  "truthy a = (a \<noteq> None \<and> a \<noteq> Some [])"

text \<open>
  \<^verbatim>\<open>line.audioData!\<close> as the argument of \<^verbatim>\<open>decode\<close>: a missing field reaches \<^verbatim>\<open>atob\<close> as
  the string \<^verbatim>\<open>undefined\<close>.
\<close>

definition payload :: "ParsedLine \<Rightarrow> string" where
  "payload line = (case audioData line of Some a \<Rightarrow> a | None \<Rightarrow> ''undefined'')"

subsection \<open>Concatenation\<close>

fun copyChunks :: "byte list list \<Rightarrow> nat \<Rightarrow> byte list \<Rightarrow> error + byte list" where
  "copyChunks [] offset mergedPcm = Inr mergedPcm"
| "copyChunks (chunk # pcmChunks) offset mergedPcm =
     bind_e (typedArray_set mergedPcm chunk (of_nat offset))
       (\<lambda>mergedPcm'. copyChunks pcmChunks (offset + length chunk) mergedPcm')"

text \<open>The \<^verbatim>\<open>try\<close> block of \<^verbatim>\<open>handleDownloadConcatMerged\<close> up to the merged PCM.\<close>

definition mergeConcat :: "ParsedLine list \<Rightarrow> error + byte list" where
  "mergeConcat ls =
     (let successfulLines = filter (\<lambda>line. status_line line = Done \<and> truthy (audioData line)) ls
      in if length successfulLines = 0 then Inl NoSuccessfulLines
         else bind_e (map_e (\<lambda>line. decode (payload line)) successfulLines) (\<lambda>pcmChunks.
              let totalLength = foldl (\<lambda>acc chunk. acc + length chunk) 0 pcmChunks
              in bind_e (new_Uint8Array (int totalLength)) (\<lambda>mergedPcm.
                 copyChunks pcmChunks 0 mergedPcm)))"

subsection \<open>Placement by subtitle time\<close>

definition bytesPerSecond :: rat where
  "bytesPerSecond =
     (let sampleRate = 24000; bitsPerSample = 16; numChannels = 1;
          bytesPerSample = bitsPerSample / 8
      in sampleRate * numChannels * bytesPerSample)"

definition successfulTimedLines :: "ParsedLine list \<Rightarrow> ParsedLine list" where
  "successfulTimedLines ls =
     filter (\<lambda>line. status_line line = Done \<and> truthy (audioData line) \<and> endTimeMs line \<noteq> None) ls"

text \<open>
  \<^verbatim>\<open>Math.max\<close> over a non-empty argument list. The handler throws before the call when
  no line qualifies, so the first equation is never used by \<open>mergeTimed\<close>.
\<close>

fun Math_max :: "int list \<Rightarrow> int" where
  "Math_max [] = 0"
| "Math_max (x # xs) = fold max xs x"

definition endTimes :: "ParsedLine list \<Rightarrow> int list" where
  "endTimes ls = concat (map (\<lambda>line. case endTimeMs line of Some e \<Rightarrow> [e] | None \<Rightarrow> []) ls)"

text \<open>
  The length of the canvas for a given last end time. An allocation that fails for want
  of memory is not modelled: \<open>new_Uint8Array\<close> fails only on a negative length.
\<close>

definition finalTotalBytes :: "int \<Rightarrow> int" where
  "finalTotalBytes lastEndTimeMs =
     (let totalDurationMs = js_add (of_int lastEndTimeMs) 2000;
          totalBytes = \<lceil>js_mul (js_div totalDurationMs 1000) bytesPerSecond\<rceil>
      in if totalBytes mod 2 = 0 then totalBytes else totalBytes + 1)"

text \<open>One iteration of the placement loop.\<close>

definition placeLine :: "ParsedLine \<Rightarrow> byte list \<Rightarrow> error + byte list" where
  "placeLine line mergedPcm =
     (case startTimeMs line of
        None \<Rightarrow> Inr mergedPcm
      | Some startTime \<Rightarrow>
          if \<not> truthy (audioData line) then Inr mergedPcm
          else bind_e (decode (payload line)) (\<lambda>audioChunk.
                 let startByte = js_mul (js_div (of_int startTime) 1000) bytesPerSecond
                 in if js_add startByte (of_nat (length audioChunk)) \<le> of_nat (length mergedPcm)
                    then typedArray_set mergedPcm audioChunk startByte
                    else (let truncatedChunk =
                                typedArray_slice audioChunk 0
                                  (js_sub (of_nat (length mergedPcm)) startByte)
                          in typedArray_set mergedPcm truncatedChunk startByte)))"

fun placeLines :: "ParsedLine list \<Rightarrow> byte list \<Rightarrow> error + byte list" where
  "placeLines [] mergedPcm = Inr mergedPcm"
| "placeLines (line # ls) mergedPcm = bind_e (placeLine line mergedPcm) (placeLines ls)"

text \<open>The \<^verbatim>\<open>try\<close> block of \<^verbatim>\<open>handleDownloadSrtMerged\<close> up to the merged PCM.\<close>

definition mergeTimed :: "ParsedLine list \<Rightarrow> error + byte list" where
  "mergeTimed ls =
     (let successfulLines = successfulTimedLines ls
      in if length successfulLines = 0 then Inl NoSuccessfulLines
         else (let lastEndTimeMs = Math_max (endTimes successfulLines)
               in bind_e (new_Uint8Array (finalTotalBytes lastEndTimeMs)) (\<lambda>mergedPcm.
                  placeLines successfulLines mergedPcm)))"

subsection \<open>The handlers\<close>

definition setIsMerging :: "string \<Rightarrow> bool \<Rightarrow> FileState list \<Rightarrow> FileState list" where
  "setIsMerging fileId b fs = map (\<lambda>f. if id_file f = fileId then f\<lparr>isMerging := Some b\<rparr> else f) fs"

text \<open>
  A merge handler returns the new state and the bytes of the WAV file it offers for
  download, if any. Its \<^verbatim>\<open>catch\<close> block stores the error; its \<^verbatim>\<open>finally\<close> block clears
  the merging flag.
\<close>

definition mergeHandler ::
  "(ParsedLine list \<Rightarrow> error + byte list) \<Rightarrow> AppState \<Rightarrow> string \<Rightarrow> AppState \<times> byte list option" where
  "mergeHandler merge st fileId =
     (case find (\<lambda>f. id_file f = fileId) (files st) of
        None \<Rightarrow> (st, None)
      | Some fileToMerge \<Rightarrow>
          (let st1 = st\<lparr>files := setIsMerging fileId True (files st), globalError := None\<rparr>
           in case bind_e (merge (lines fileToMerge)) pcmToWavBlob of
                Inr wavBlob \<Rightarrow> (st1\<lparr>files := setIsMerging fileId False (files st1)\<rparr>, Some wavBlob)
              | Inl err \<Rightarrow>
                  (st1\<lparr>globalError := Some err,
                       files := setIsMerging fileId False (files st1)\<rparr>, None)))"

definition handleDownloadConcatMerged :: "AppState \<Rightarrow> string \<Rightarrow> AppState \<times> byte list option" where
  "handleDownloadConcatMerged st fileId = mergeHandler mergeConcat st fileId"

definition handleDownloadSrtMerged :: "AppState \<Rightarrow> string \<Rightarrow> AppState \<times> byte list option" where
  "handleDownloadSrtMerged st fileId = mergeHandler mergeTimed st fileId"


subsection \<open>Well-formed lines\<close>

text \<open>
  The data-model invariant that a line marked \<open>Done\<close> carries its audio payload. A run
  establishes it: \<open>Done\<close> is only ever published together with the non-empty payload that
  the synthesis service returned.
\<close>

definition lines_wf :: "ParsedLine list \<Rightarrow> bool" where
  "lines_wf ls = list_all (\<lambda>line. status_line line = Done \<longrightarrow> truthy (audioData line)) ls"


section \<open>Scenarios\<close>

text \<open>
  Concrete lines, files, states and services, on which the general results are instantiated
  and the handlers are evaluated.
\<close>

definition line_hello :: ParsedLine where
  "line_hello = \<lparr>id_line = ''001'', text_line = ''Hello'', status_line = Pending,
                  audioData = None, error_line = None, startTimeMs = None, endTimeMs = None\<rparr>"

definition file_of :: "Status \<Rightarrow> ParsedLine list \<Rightarrow> FileState" where
  "file_of s ls = \<lparr>id_file = ''a.txt-1'', name = ''a.txt'', status_file = s, lines = ls,
                   error_file = None, isZipping = None, isMerging = None\<rparr>"

definition app_of :: "FileState list \<Rightarrow> AppState" where
  "app_of fs = \<lparr>files = fs, isKeySaved = True, convertingFileId = None,
                isBatchConvertingAll = False, globalError = None\<rparr>"

definition blocked_message :: string where
  "blocked_message = ''Failed to convert text to speech: Content blocked. Reason: SAFETY. ''"

definition quota_message :: string where
  "quota_message = ''Failed to convert text to speech: quota exceeded''"

definition env_blocked_once :: Collaborators where
  "env_blocked_once =
     \<lparr>textToSpeech = (\<lambda>attempt t. if attempt = 1 then Inl blocked_message else Inr ''AAAA''),
      rewriteText = (\<lambda>attempt t. Inr ''Hi'')\<rparr>"

definition env_blocked_last :: Collaborators where
  "env_blocked_last =
     \<lparr>textToSpeech = (\<lambda>attempt t. if attempt < 5 then Inl quota_message else Inl blocked_message),
      rewriteText = (\<lambda>attempt t. Inr ''Hi'')\<rparr>"

definition line_failed :: ParsedLine where
  "line_failed = line_hello\<lparr>status_line := Error, error_line := Some quota_message\<rparr>"


definition line_audio :: "string \<Rightarrow> string \<Rightarrow> int option \<Rightarrow> int option \<Rightarrow> ParsedLine" where
  "line_audio i a s e =
     \<lparr>id_line = i, text_line = ''Hello'', status_line = Done, audioData = Some a,
      error_line = None, startTimeMs = s, endTimeMs = e\<rparr>"


definition line_47 :: ParsedLine where
  "line_47 = line_audio ''001'' ''AQID'' (Some 0) (Some 47)"

definition line_late :: ParsedLine where
  "line_late = line_audio ''002'' ''AQID'' (Some 10000) (Some 0)"

definition lines_timed :: "ParsedLine list" where
  "lines_timed = [line_audio ''001'' ''AQID'' (Some 0) (Some 1000),
                  line_audio ''002'' ''BAU='' (Some 2000) (Some 3000),
                  line_audio ''003'' ''AQID'' (Some 5000) (Some 6000)]"

definition line_first :: ParsedLine where
  "line_first = line_audio ''001'' ''AQID'' (Some 0) (Some 1000)"

definition line_no_start :: ParsedLine where
  "line_no_start = line_audio ''002'' ''BAU='' None (Some 9000)"


section \<open>Rounding to double precision\<close>

text \<open>
  \<open>floor_log2\<close> is the binary exponent, so \<open>fl\<close> rounds to 53 significant bits; integers
  below \<open>2 ^ 53\<close> are not changed by it. The two evaluations at the end are the doubles
  that JavaScript computes for \<^verbatim>\<open>2047 / 1000\<close> and \<^verbatim>\<open>(2047 / 1000) * 48000\<close>: the
  product is \<open>98256.00000000001\<close>, not \<open>98256\<close>.
\<close>

lemma bitlen_powi_bounds:
  assumes "0 < p"
  shows "(2::rat) powi (bitlen p - 1) \<le> of_int p" "of_int p < (2::rat) powi (bitlen p)"
proof -
  from bitlen_bounds [OF assms]
  have lo: "2 ^ nat (bitlen p - 1) \<le> p" and hi: "p < 2 ^ nat (bitlen p)" by simp_all
  have pos: "1 \<le> bitlen p" using assms by (simp add: bitlen_alt_def)
  have "(of_int (2 ^ nat (bitlen p - 1)) :: rat) \<le> of_int p"
    using lo by (simp only: of_int_le_iff)
  then show "(2::rat) powi (bitlen p - 1) \<le> of_int p"
    using pos by (simp add: power_int_nonneg_exp)
  have "(of_int p :: rat) < of_int (2 ^ nat (bitlen p))"
    using hi by (simp only: of_int_less_iff)
  then show "of_int p < (2::rat) powi (bitlen p)"
    using pos by (simp add: power_int_nonneg_exp)
qed

lemma floor_log2_bounds:
  assumes "0 < a"
  shows "2 powi (floor_log2 a) \<le> a" "a < 2 powi (floor_log2 a + 1)"
proof -
  obtain p q where pq: "quotient_of a = (p, q)" by (cases "quotient_of a")
  then have q: "0 < q" by (rule quotient_of_denom_pos)
  from pq have a: "a = of_int p / of_int q" by (rule quotient_of_div)
  have p: "0 < p"
  proof (rule ccontr)
    assume "\<not> 0 < p"
    then have "of_int p \<le> (0::rat)" by simp
    with q have "a \<le> 0" unfolding a by (simp add: divide_le_0_iff)
    with assms show False by simp
  qed
  define k0 where "k0 = bitlen p - bitlen q"
  note bp = bitlen_powi_bounds [OF p] and bq = bitlen_powi_bounds [OF q]
  have qpos: "(0::rat) < of_int q" using q by simp
  have upper: "a < 2 powi (k0 + 1)"
  proof -
    have "of_int p / of_int q < 2 powi (bitlen p) / (2::rat) powi (bitlen q - 1)"
      by (rule frac_less) (use p bp bq in simp_all)
    also have "\<dots> = 2 powi (bitlen p - (bitlen q - 1))"
      by (simp add: power_int_diff)
    finally show ?thesis by (simp add: a k0_def algebra_simps)
  qed
  have lower: "2 powi (k0 - 1) \<le> a"
  proof -
    have "(2::rat) powi (bitlen p - 1) / 2 powi (bitlen q) \<le> of_int p / of_int q"
      by (rule frac_le) (use p q bp bq in simp_all)
    moreover have "(2::rat) powi (bitlen p - 1) / 2 powi (bitlen q) = 2 powi (bitlen p - 1 - bitlen q)"
      by (simp add: power_int_diff)
    ultimately show ?thesis by (simp add: a k0_def algebra_simps)
  qed
  have fl: "floor_log2 a = (if 2 powi k0 \<le> a then k0 else k0 - 1)"
    by (simp add: floor_log2_def pq k0_def Let_def)
  show "2 powi (floor_log2 a) \<le> a" using lower by (simp add: fl)
  show "a < 2 powi (floor_log2 a + 1)" using upper by (auto simp: fl)
qed

lemma floor_log2_unique:
  assumes "2 powi e \<le> a" "a < 2 powi (e + 1)"
  shows "floor_log2 a = e"
proof -
  have pos: "0 < a" using assms(1) by (rule less_le_trans [rotated]) simp
  note b = floor_log2_bounds [OF pos]
  have "(2::rat) powi e < 2 powi (floor_log2 a + 1)" using assms(1) b(2) by simp
  then have 1: "e < floor_log2 a + 1"
    by (rule_tac ccontr) (simp add: not_less power_int_increasing [of _ _ "2::rat"] leD)
  have "(2::rat) powi (floor_log2 a) < 2 powi (e + 1)" using assms(2) b(1) by simp
  then have 2: "floor_log2 a < e + 1"
    by (rule_tac ccontr) (simp add: not_less power_int_increasing [of _ _ "2::rat"] leD)
  from 1 2 show ?thesis by simp
qed

lemma roundTiesToEven_of_int: "roundTiesToEven (of_int k) = k"
  by (simp add: roundTiesToEven_def Let_def)

lemma fl_eqI:
  assumes "2 powi e \<le> \<bar>x\<bar>" "\<bar>x\<bar> < 2 powi (e + 1)"
  shows "fl x = of_int (roundTiesToEven (x / 2 powi (e - 52))) * 2 powi (e - 52)"
proof -
  have "(0::rat) < 2 powi e" by simp
  with assms(1) have "0 < \<bar>x\<bar>" by linarith
  then have "x \<noteq> 0" by auto
  with floor_log2_unique [OF assms] show ?thesis by (simp add: fl_def Let_def)
qed

lemma fl_of_int:
  assumes "\<bar>n\<bar> < 2 ^ 53"
  shows "fl (of_int n) = of_int n"
proof (cases "n = 0")
  case True
  then show ?thesis by (simp add: fl_def)
next
  case False
  define a :: rat where "a = \<bar>of_int n\<bar>"
  define e where "e = floor_log2 a"
  have a1: "1 \<le> a" using False by (simp add: a_def flip: of_int_abs)
  then have pos: "0 < a" by simp
  note b = floor_log2_bounds [OF pos, folded e_def]
  have "(2::rat) powi 0 < 2 powi (e + 1)" using a1 b(2) by simp
  then have e0: "0 \<le> e"
    using power_int_increasing [of "e + 1" 0 "2::rat"] by (cases "0 \<le> e") auto
  have "a < 2 ^ 53" using assms unfolding a_def
    by (metis of_int_abs of_int_less_numeral_power_cancel_iff)
  with b(1) have lt: "(2::rat) powi e < 2 ^ 53" by simp
  have e52: "e \<le> 52"
  proof (rule ccontr)
    assume "\<not> e \<le> 52"
    then have "53 \<le> e" by simp
    then have "(2::rat) powi 53 \<le> 2 powi e" by (rule power_int_increasing) simp
    with lt show False by simp
  qed
  define m where "m = nat (52 - e)"
  have ulp: "(2::rat) powi (e - 52) = 1 / 2 ^ m"
    using e52 by (simp add: m_def power_int_def field_simps)
  have "of_int n / (2::rat) powi (e - 52) = of_int (n * 2 ^ m)"
    by (simp add: ulp)
  then have "roundTiesToEven (of_int n / (2::rat) powi (e - 52)) = n * 2 ^ m"
    by (simp only: roundTiesToEven_of_int)
  then show ?thesis
    using False by (simp add: fl_def Let_def a_def [symmetric] e_def [symmetric] ulp)
qed

lemma fl_of_nat: "n < 2 ^ 53 \<Longrightarrow> fl (of_nat n) = of_nat n"
  using fl_of_int [of "int n"] by simp

lemma roundTiesToEven_error: "\<bar>of_int (roundTiesToEven r) - r\<bar> \<le> 1 / 2"
proof -
  define f where "f = \<lfloor>r\<rfloor>"
  define d where "d = r - of_int f"
  have d: "0 \<le> d" "d < 1" unfolding d_def f_def by linarith+
  have r: "r = of_int f + d" by (simp add: d_def)
  show ?thesis
    unfolding roundTiesToEven_def Let_def f_def [symmetric] d_def [symmetric]
    using d by (auto simp: r)
qed

lemma fl_error: "\<bar>fl x - x\<bar> \<le> \<bar>x\<bar> / 2 ^ 53"
proof (cases "x = 0")
  case True
  then show ?thesis by (simp add: fl_def)
next
  case False
  define e where "e = floor_log2 \<bar>x\<bar>"
  define ulp :: rat where "ulp = 2 powi (e - 52)"
  have pos: "0 < \<bar>x\<bar>" using False by simp
  note b = floor_log2_bounds [OF pos, folded e_def]
  have ulp_pos: "0 < ulp" by (simp add: ulp_def)
  have fl: "fl x = of_int (roundTiesToEven (x / ulp)) * ulp"
    using False by (simp add: fl_def Let_def e_def ulp_def)
  have "fl x - x = (of_int (roundTiesToEven (x / ulp)) - x / ulp) * ulp"
    using ulp_pos by (simp add: fl algebra_simps)
  then have "\<bar>fl x - x\<bar> = \<bar>of_int (roundTiesToEven (x / ulp)) - x / ulp\<bar> * ulp"
    using ulp_pos by (simp add: abs_mult)
  also have "\<dots> \<le> 1 / 2 * ulp"
    using roundTiesToEven_error [of "x / ulp"] ulp_pos by (intro mult_right_mono) simp_all
  also have "1 / 2 * ulp = 2 powi e / 2 ^ 53"
  proof -
    have "(2::rat) powi (e - 52) = 2 powi e / 2 powi 52" by (simp add: power_int_diff)
    then show ?thesis by (simp add: ulp_def)
  qed
  also have "\<dots> \<le> \<bar>x\<bar> / 2 ^ 53"
    using b(1) by (simp add: divide_right_mono)
  finally show ?thesis .
qed

lemma floor_rat_numeral: "\<lfloor>numeral a / numeral b :: rat\<rfloor> = numeral a div numeral b"
  by (metis floor_divide_of_int_eq of_int_numeral)

lemma ceiling_rat_numeral: "\<lceil>numeral a / numeral b :: rat\<rceil> = - (- numeral a div numeral b)"
  by (metis ceiling_divide_eq_div of_int_numeral)

lemma fl_numeral: "\<bar>numeral k :: int\<bar> < 2 ^ 53 \<Longrightarrow> fl (numeral k) = numeral k"
  using fl_of_int [of "numeral k"] by simp

lemma fl_neg_numeral: "\<bar>numeral k :: int\<bar> < 2 ^ 53 \<Longrightarrow> fl (- numeral k) = - numeral k"
  using fl_of_int [of "- numeral k"] by simp

lemma fl_2047: "fl (2047 / 1000) = 4609434218613703 / 2251799813685248"
proof -
  have "fl (2047 / 1000) = of_int (roundTiesToEven (2047 / 1000 / 2 powi (1 - 52))) * 2 powi (1 - 52)"
    by (rule fl_eqI) simp_all
  also have "\<dots> = 4609434218613703 / 2251799813685248"
    by (simp add: roundTiesToEven_def Let_def floor_rat_numeral)
  finally show ?thesis .
qed

lemma fl_2047_bytes:
  "fl (4609434218613703 / 2251799813685248 * 48000) = 6752100906172417 / 68719476736"
proof -
  have "fl (4609434218613703 / 2251799813685248 * 48000)
          = of_int (roundTiesToEven (4609434218613703 / 2251799813685248 * 48000 / 2 powi (16 - 52)))
              * 2 powi (16 - 52)"
    by (rule fl_eqI) simp_all
  also have "\<dots> = 6752100906172417 / 68719476736"
    by (simp add: roundTiesToEven_def Let_def floor_rat_numeral)
  finally show ?thesis .
qed

lemma fl_2047_product: "fl (1728537831980138625 / 17592186044416) = 6752100906172417 / 68719476736"
  using fl_2047_bytes by simp


section \<open>The WAV encoder\<close>

lemma bind_e_Inr: "bind_e (Inr x) f = f x"
  by (simp add: bind_e_def)

lemma bind_e_Inl: "bind_e (Inl e) f = Inl e"
  by (simp add: bind_e_def)

lemma length_le16: "length (le16 w) = 2"
  by (simp add: le16_def)

lemma length_le32: "length (le32 w) = 4"
  by (simp add: le32_def)

lemma set_bytes_seq:
  "length p = off \<Longrightarrow> length src \<le> m \<Longrightarrow>
   set_bytes (p @ replicate m 0 @ r) src off = Inr (p @ src @ replicate (m - length src) 0 @ r)"
  by (simp add: set_bytes_def)

lemma setUint8_seq:
  "length p = off \<Longrightarrow> 1 \<le> m \<Longrightarrow>
   setUint8 (p @ replicate m 0 @ r) off v = Inr (p @ [of_nat v] @ replicate (m - 1) 0 @ r)"
  by (cases m) (simp_all add: setUint8_def list_update_append)

lemma setUint16_seq:
  "length p = off \<Longrightarrow> 2 \<le> m \<Longrightarrow>
   setUint16 (p @ replicate m 0 @ r) off v = Inr (p @ le16 (of_nat v) @ replicate (m - 2) 0 @ r)"
  by (simp add: setUint16_def set_bytes_seq length_le16)

lemma setUint32_seq:
  "length p = off \<Longrightarrow> 4 \<le> m \<Longrightarrow>
   setUint32 (p @ replicate m 0 @ r) off v = Inr (p @ le32 (of_nat v) @ replicate (m - 4) 0 @ r)"
  by (simp add: setUint32_def set_bytes_seq length_le32)

lemma writeString_seq:
  "length p = off \<Longrightarrow> length str \<le> m \<Longrightarrow>
   writeString (p @ replicate m 0 @ r) off str =
     Inr (p @ map of_char str @ replicate (m - length str) 0 @ r)"
proof (induction str arbitrary: p off m)
  case Nil
  then show ?case by simp
next
  case (Cons c str)
  from Cons.prems have m: "1 \<le> m" "length str \<le> m - 1" by simp_all
  have "writeString (p @ replicate m 0 @ r) off (c # str) =
        writeString ((p @ [of_char c]) @ replicate (m - 1) 0 @ r) (off + 1) str"
    using setUint8_seq [OF Cons.prems(1) m(1), of r "of_char c"]
    by (simp add: bind_e_Inr of_nat_of_char)
  also have "\<dots> = Inr ((p @ [of_char c]) @ map of_char str @ replicate (m - 1 - length str) 0 @ r)"
    by (rule Cons.IH) (use Cons.prems m in simp_all)
  finally show ?case by simp
qed

lemma pcmToWavBlob_eq:
  "pcmToWavBlob pcm =
     Inr (map of_char ''RIFF'' @ le32 (of_nat (36 + length pcm)) @ map of_char ''WAVE'' @
          map of_char ''fmt '' @ le32 16 @ le16 1 @ le16 1 @ le32 24000 @ le32 48000 @
          le16 2 @ le16 16 @ map of_char ''data'' @ le32 (of_nat (length pcm)) @ pcm)"
proof -
  let ?n = "length pcm"
  let ?r = "replicate ?n (0::byte)"
  let ?p1 = "map of_char ''RIFF'' :: byte list"
  let ?p2 = "?p1 @ le32 (of_nat (36 + ?n))"
  let ?p3 = "?p2 @ map of_char ''WAVE''"
  let ?p4 = "?p3 @ map of_char ''fmt ''"
  let ?p5 = "?p4 @ le32 (of_nat 16)"
  let ?p6 = "?p5 @ le16 (of_nat 1)"
  let ?p7 = "?p6 @ le16 (of_nat 1)"
  let ?p8 = "?p7 @ le32 (of_nat 24000)"
  let ?p9 = "?p8 @ le32 (of_nat 48000)"
  let ?p10 = "?p9 @ le16 (of_nat 2)"
  let ?p11 = "?p10 @ le16 (of_nat 16)"
  let ?p12 = "?p11 @ map of_char ''data''"
  let ?p13 = "?p12 @ le32 (of_nat ?n)"
  have s1: "writeString (replicate (44 + ?n) 0) 0 ''RIFF'' = Inr (?p1 @ replicate 40 0 @ ?r)"
    using writeString_seq [of "[]" 0 "''RIFF''" 44 ?r] by (simp add: replicate_add)
  have s2: "setUint32 (?p1 @ replicate 40 0 @ ?r) 4 (36 + ?n) = Inr (?p2 @ replicate 36 0 @ ?r)"
    using setUint32_seq [of ?p1 4 40 ?r] by simp
  have s3: "writeString (?p2 @ replicate 36 0 @ ?r) 8 ''WAVE'' = Inr (?p3 @ replicate 32 0 @ ?r)"
    using writeString_seq [of ?p2 8 "''WAVE''" 36 ?r] by (simp add: length_le32)
  have s4: "writeString (?p3 @ replicate 32 0 @ ?r) 12 ''fmt '' = Inr (?p4 @ replicate 28 0 @ ?r)"
    using writeString_seq [of ?p3 12 "''fmt ''" 32 ?r] by (simp add: length_le32)
  have s5: "setUint32 (?p4 @ replicate 28 0 @ ?r) 16 16 = Inr (?p5 @ replicate 24 0 @ ?r)"
    using setUint32_seq [of ?p4 16 28 ?r 16] by (simp add: length_le32)
  have s6: "setUint16 (?p5 @ replicate 24 0 @ ?r) 20 1 = Inr (?p6 @ replicate 22 0 @ ?r)"
    using setUint16_seq [of ?p5 20 24 ?r 1] by (simp add: length_le32)
  have s7: "setUint16 (?p6 @ replicate 22 0 @ ?r) 22 1 = Inr (?p7 @ replicate 20 0 @ ?r)"
    using setUint16_seq [of ?p6 22 22 ?r 1] by (simp add: length_le32 length_le16)
  have s8: "setUint32 (?p7 @ replicate 20 0 @ ?r) 24 24000 = Inr (?p8 @ replicate 16 0 @ ?r)"
    using setUint32_seq [of ?p7 24 20 ?r 24000] by (simp add: length_le32 length_le16)
  have s9: "setUint32 (?p8 @ replicate 16 0 @ ?r) 28 (24000 * (1 * (16 div 8)))
              = Inr (?p9 @ replicate 12 0 @ ?r)"
    using setUint32_seq [of ?p8 28 16 ?r 48000] by (simp add: length_le32 length_le16)
  have s10: "setUint16 (?p9 @ replicate 12 0 @ ?r) 32 (1 * (16 div 8))
               = Inr (?p10 @ replicate 10 0 @ ?r)"
    using setUint16_seq [of ?p9 32 12 ?r 2] by (simp add: length_le32 length_le16)
  have s11: "setUint16 (?p10 @ replicate 10 0 @ ?r) 34 16 = Inr (?p11 @ replicate 8 0 @ ?r)"
    using setUint16_seq [of ?p10 34 10 ?r 16] by (simp add: length_le32 length_le16)
  have s12: "writeString (?p11 @ replicate 8 0 @ ?r) 36 ''data'' = Inr (?p12 @ replicate 4 0 @ ?r)"
    using writeString_seq [of ?p11 36 "''data''" 8 ?r] by (simp add: length_le32 length_le16)
  have s13: "setUint32 (?p12 @ replicate 4 0 @ ?r) 40 ?n = Inr (?p13 @ replicate 0 0 @ ?r)"
    using setUint32_seq [of ?p12 40 4 ?r ?n] by (simp add: length_le32 length_le16)
  have s14: "typedArray_set (?p13 @ replicate 0 0 @ ?r) pcm 44 = Inr (?p13 @ pcm)"
    by (simp add: typedArray_set_def ToIntegerOrInfinity_def set_bytes_def length_le32 length_le16)
  have "pcmToWavBlob pcm = Inr (?p13 @ pcm)"
    unfolding pcmToWavBlob_def Let_def
    by (simp only: s1 s2 s3 s4 s5 s6 s7 s8 s9 s10 s11 s12 s13 s14 bind_e_Inr)
  then show ?thesis by simp
qed

lemma le32_numerals:
  "le32 16 = [16, 0, 0, 0]" "le32 24000 = [192, 93, 0, 0]" "le32 48000 = [128, 187, 0, 0]"
  by (simp_all add: le32_def)

lemma le16_numerals:
  "le16 1 = [1, 0]" "le16 2 = [2, 0]" "le16 16 = [16, 0]"
  by (simp_all add: le16_def)

text \<open>
  C4. For every PCM byte sequence the encoder returns \<open>44 + length pcm\<close> bytes: the bytes
  of \<open>RIFF\<close>, the chunk size \<open>36 + dataSize\<close> as a little-endian 32-bit word, \<open>WAVE\<close>,
  \<open>fmt \<close>, the sub-chunk size \<open>16\<close> (32 bits), the audio format \<open>1\<close>, the channel count \<open>1\<close>
  (16 bits each), the sample rate \<open>24000\<close>, the byte rate \<open>48000\<close> (32 bits each), the block
  alignment \<open>2\<close>, the sample width \<open>16\<close> (16 bits each), \<open>data\<close>, the data size
  \<open>length pcm\<close> (32 bits), and then the PCM bytes unchanged. The fixed fields are given byte
  by byte, lowest byte first.
\<close>

theorem pcmToWavBlob_layout:
  "pcmToWavBlob pcm =
     Inr ([0x52, 0x49, 0x46, 0x46] @ le32 (36 + of_nat (length pcm)) @
          [0x57, 0x41, 0x56, 0x45] @ [0x66, 0x6D, 0x74, 0x20] @
          [16, 0, 0, 0] @ [1, 0] @ [1, 0] @ [0xC0, 0x5D, 0, 0] @ [0x80, 0xBB, 0, 0] @
          [2, 0] @ [16, 0] @ [0x64, 0x61, 0x74, 0x61] @ le32 (of_nat (length pcm)) @ pcm)
   \<and> length (projr (pcmToWavBlob pcm)) = 44 + length pcm
   \<and> map of_char ''RIFF'' = [0x52, 0x49, 0x46, 0x46 :: byte]
   \<and> map of_char ''WAVE'' = [0x57, 0x41, 0x56, 0x45 :: byte]
   \<and> map of_char ''fmt '' = [0x66, 0x6D, 0x74, 0x20 :: byte]
   \<and> map of_char ''data'' = [0x64, 0x61, 0x74, 0x61 :: byte]
   \<and> le32 16 = [16, 0, 0, 0] \<and> le16 1 = [1, 0] \<and> le32 24000 = [0xC0, 0x5D, 0, 0]
   \<and> le32 48000 = [0x80, 0xBB, 0, 0] \<and> le16 2 = [2, 0] \<and> le16 16 = [16, 0]"
  by (simp add: pcmToWavBlob_eq le32_numerals le16_numerals length_le32)

lemma base256_decomp:
  fixes n :: nat
  assumes "n < 4294967296"
  shows "n mod 256 + 256 * (n div 256 mod 256) + 65536 * (n div 65536 mod 256)
           + 16777216 * (n div 16777216 mod 256) = n"
proof -
  define q1 where "q1 = n div 256"
  define q2 where "q2 = q1 div 256"
  define q3 where "q3 = q2 div 256"
  have e2: "n div 65536 = q2"
    unfolding q2_def q1_def by (simp add: div_mult2_eq [symmetric])
  have e3: "n div 16777216 = q3"
    unfolding q3_def q2_def q1_def by (simp add: div_mult2_eq [symmetric])
  have "q3 < 256" using assms unfolding e3 [symmetric] by simp
  then have m3: "q3 mod 256 = q3" by simp
  have d1: "n = n mod 256 + 256 * q1" unfolding q1_def by simp
  have d2: "q1 = q1 mod 256 + 256 * q2" unfolding q2_def by simp
  have d3: "q2 = q2 mod 256 + 256 * q3" unfolding q3_def by simp
  have "n mod 256 + 256 * (q1 mod 256) + 65536 * (q2 mod 256) + 16777216 * q3 = n"
    using d1 d2 d3 by linarith
  then show ?thesis
    unfolding e2 e3 m3 q1_def [symmetric] .
qed

lemma le32_value:
  "unat (ucast w :: byte) + 256 * unat (ucast (drop_bit 8 w) :: byte)
     + 65536 * unat (ucast (drop_bit 16 w) :: byte)
     + 16777216 * unat (ucast (drop_bit 24 w) :: byte) = unat (w :: 32 word)"
proof -
  have b: "unat w < 4294967296" using unsigned_less [of w, where 'a = nat] by simp
  have u: "unat (ucast (drop_bit k w) :: byte) = (unat w div 2 ^ k) mod 256" for k
    unfolding unsigned_ucast_eq unat_drop_bit_eq by (simp add: take_bit_eq_mod drop_bit_eq_div)
  have u0: "unat (ucast w :: byte) = unat w mod 256"
    by (simp add: unsigned_ucast_eq take_bit_eq_mod)
  have u8: "unat (ucast (drop_bit 8 w) :: byte) = unat w div 256 mod 256"
    and u16: "unat (ucast (drop_bit 16 w) :: byte) = unat w div 65536 mod 256"
    and u24: "unat (ucast (drop_bit 24 w) :: byte) = unat w div 16777216 mod 256"
    using u [of 8] u [of 16] u [of 24] by simp_all
  show ?thesis
    unfolding u0 u8 u16 u24 by (rule base256_decomp [OF b])
qed

text \<open>
  C9, as the code has it. The data sub-chunk of the encoding of \<open>X\<close> is \<open>X\<close> itself, and the
  32-bit data size field at offset 40 reads \<open>length X\<close> modulo \<open>2 ^ 32\<close>, which is
  \<open>length X\<close> for every sequence shorter than 4 GiB.
\<close>

theorem pcmToWavBlob_data_roundtrip:
  "\<exists>wav. pcmToWavBlob X = Inr wav \<and> data_subchunk wav = X
         \<and> getUint32 wav 40 = length X mod 4294967296"
proof -
  define P :: "byte list" where
    "P = map of_char ''RIFF'' @ le32 (of_nat (36 + length X)) @ map of_char ''WAVE'' @
          map of_char ''fmt '' @ le32 16 @ le16 1 @ le16 1 @ le32 24000 @ le32 48000 @
          le16 2 @ le16 16 @ map of_char ''data''"
  define w :: "32 word" where "w = of_nat (length X)"
  define wav where "wav = P @ le32 w @ X"
  have len: "length P = 40" by (simp add: P_def length_le32 length_le16)
  have wav: "pcmToWavBlob X = Inr wav" by (simp add: pcmToWavBlob_eq wav_def P_def w_def)
  have data: "data_subchunk wav = X"
    by (simp add: data_subchunk_def wav_def len length_le32)
  have nth: "wav ! (40 + i) = (le32 w @ X) ! i" for i
    unfolding wav_def using nth_append_length_plus [of P "le32 w @ X" i] len by simp
  have "getUint32 wav 40 = unat w"
    unfolding getUint32_def
    using nth [of 0] nth [of 1] nth [of 2] nth [of 3] le32_value [of w]
    by (simp add: le32_def)
  then have "getUint32 wav 40 = length X mod 4294967296"
    by (simp add: w_def unat_of_nat)
  with wav data show ?thesis by blast
qed

text \<open>
  C9 as stated applies the encoder once more to the decoded data sub-chunk and equates
  the result with \<open>X\<close>. An encoding is never shorter than its 44-byte header, so already
  for the empty sequence the result is not \<open>X\<close>.
\<close>

theorem wav_reencode_not_identity:
  "bind_e (pcmToWavBlob [])
     (\<lambda>wav. bind_e (decode (map (\<lambda>b. char_of (unat b)) (data_subchunk wav))) pcmToWavBlob)
   \<noteq> Inr []"
  by (simp add: pcmToWavBlob_eq bind_e_Inr data_subchunk_def length_le32 length_le16
        decode_def atob_def strip_padding_def)


section \<open>The conversion run\<close>

declare attempts.simps [simp del]

lemma attempts_cases [case_names stop success rewritten rewrite_failed retry]:
  obtains
    "RETRY_ATTEMPTS < a" "attempts env vp a t rw = []"
  | audio where "a \<le> RETRY_ATTEMPTS"
      "attempts env vp a t rw =
         [Synth (constructApiText vp t) (Inr audio), Publish (SetDone audio t)]"
  | message new where "a \<le> RETRY_ATTEMPTS" "str_includes message ''Content blocked''" "\<not> rw"
      "attempts env vp a t rw =
         Synth (constructApiText vp t) (Inl message) # Publish SetRewriting #
         Rewrite t (Inr new) # Publish (SetRewritten new) # attempts env vp (a + 1) new True"
  | message e where "a \<le> RETRY_ATTEMPTS" "str_includes message ''Content blocked''" "\<not> rw"
      "attempts env vp a t rw =
         Synth (constructApiText vp t) (Inl message) # Publish SetRewriting #
         Rewrite t (Inl e) # retryOrFail a t True message @ attempts env vp (a + 1) t True"
  | message where "a \<le> RETRY_ATTEMPTS" "\<not> (str_includes message ''Content blocked'' \<and> \<not> rw)"
      "attempts env vp a t rw =
         Synth (constructApiText vp t) (Inl message) #
         retryOrFail a t rw message @ attempts env vp (a + 1) t rw"
proof (cases "a \<le> RETRY_ATTEMPTS")
  case False
  then have "attempts env vp a t rw = []"
    by (subst attempts.simps) simp
  with False show ?thesis using that(1) by simp
next
  case le: True
  show ?thesis
  proof (cases "textToSpeech env a (constructApiText vp t)")
    case (Inr audio)
    with le have "attempts env vp a t rw =
        [Synth (constructApiText vp t) (Inr audio), Publish (SetDone audio t)]"
      by (subst attempts.simps) simp
    with le show ?thesis using that(2) by blast
  next
    case (Inl message)
    show ?thesis
    proof (cases "str_includes message ''Content blocked'' \<and> \<not> rw")
      case False
      with le Inl have "attempts env vp a t rw =
         Synth (constructApiText vp t) (Inl message) #
         retryOrFail a t rw message @ attempts env vp (a + 1) t rw"
        by (subst attempts.simps) auto
      with le False show ?thesis using that(5) by blast
    next
      case True
      show ?thesis
      proof (cases "rewriteText env a t")
        case (Inr new)
        with le Inl True have "attempts env vp a t rw =
           Synth (constructApiText vp t) (Inl message) # Publish SetRewriting #
           Rewrite t (Inr new) # Publish (SetRewritten new) # attempts env vp (a + 1) new True"
          by (subst attempts.simps) simp
        with le True show ?thesis using that(3) by blast
      next
        case (Inl e)
        with le \<open>textToSpeech env a (constructApiText vp t) = Inl message\<close> True
        have "attempts env vp a t rw =
           Synth (constructApiText vp t) (Inl message) # Publish SetRewriting #
           Rewrite t (Inl e) # retryOrFail a t True message @ attempts env vp (a + 1) t True"
          by (subst attempts.simps) simp
        with le True show ?thesis using that(4) by blast
      qed
    qed
  qed
qed

lemma calls_Cons:
  "calls (e # evs) = (if is_Synth e \<or> is_Rewrite e then e # calls evs else calls evs)"
  by (simp add: calls_def)

lemma calls_append: "calls (xs @ ys) = calls xs @ calls ys"
  by (simp add: calls_def)

lemma calls_retryOrFail: "calls (retryOrFail a t rw m) = []"
  by (simp add: calls_def retryOrFail_def Let_def)

lemma filter_retryOrFail:
  "filter is_Synth (retryOrFail a t rw m) = []" "filter is_Rewrite (retryOrFail a t rw m) = []"
  by (simp_all add: retryOrFail_def Let_def)

lemma attempts_synth_count:
  "length (filter is_Synth (attempts env vp a t rw)) \<le> RETRY_ATTEMPTS + 1 - a"
proof (induction "RETRY_ATTEMPTS + 1 - a" arbitrary: a t rw)
  case 0
  then have "RETRY_ATTEMPTS < a" by simp
  then show ?case by (simp add: attempts.simps [of env vp a t rw])
next
  case (Suc k)
  from Suc.hyps(2) have k': "k = RETRY_ATTEMPTS + 1 - (a + 1)" by simp
  have ih: "length (filter is_Synth (attempts env vp (a + 1) t' rw')) \<le> k" for t' rw'
    using Suc.hyps(1) [OF k', of t' rw'] k' by simp
  from Suc.hyps(2) have k: "RETRY_ATTEMPTS + 1 - a = Suc k" by simp
  show ?case
    by (cases env vp a t rw rule: attempts_cases)
       (use ih k in \<open>auto simp: filter_retryOrFail intro: le_SucI\<close>)
qed

lemma attempts_rewrite_count:
  "length (filter is_Rewrite (attempts env vp a t rw)) \<le> (if rw then 0 else 1)"
proof (induction "RETRY_ATTEMPTS + 1 - a" arbitrary: a t rw)
  case 0
  then have "RETRY_ATTEMPTS < a" by simp
  then show ?case by (simp add: attempts.simps [of env vp a t rw])
next
  case (Suc k)
  from Suc.hyps(2) have k': "k = RETRY_ATTEMPTS + 1 - (a + 1)" by simp
  have ih: "length (filter is_Rewrite (attempts env vp (a + 1) t' rw')) \<le> (if rw' then 0 else 1)"
    for t' rw'
    by (rule Suc.hyps(1) [OF k'])
  show ?case
    by (cases env vp a t rw rule: attempts_cases)
       (use ih [of _ True] ih [of t rw] in \<open>auto simp: filter_retryOrFail\<close>)
qed

lemma attempts_rewritten_no_Rewrite:
  "filter is_Rewrite (attempts env vp a t True) = []"
  using attempts_rewrite_count [of env vp a t True] by simp

lemma calls_no_Rewrite:
  "filter is_Rewrite evs = [] \<Longrightarrow> calls evs \<noteq> pre @ Rewrite x r # post"
proof
  assume a: "filter is_Rewrite evs = []" and b: "calls evs = pre @ Rewrite x r # post"
  have "Rewrite x r \<in> set (calls evs)" using b by simp
  then have "Rewrite x r \<in> set evs" by (simp add: calls_def)
  then have "Rewrite x r \<in> set (filter is_Rewrite evs)" by simp
  with a show False by simp
qed

lemma attempts_rewrite_preceded:
  "calls (attempts env vp a t rw) = pre @ Rewrite x r # post \<Longrightarrow>
   \<exists>pre' t' message. pre = pre' @ [Synth t' (Inl message)] \<and> str_includes message ''Content blocked''"
proof (induction "RETRY_ATTEMPTS + 1 - a" arbitrary: a t rw pre)
  case 0
  then have "RETRY_ATTEMPTS < a" by simp
  with 0 show ?case by (simp add: attempts.simps [of env vp a t rw] calls_def)
next
  case (Suc k)
  have nr: "calls (attempts env vp (a + 1) t' True) \<noteq> p @ Rewrite x r # q" for t' p q
    by (rule calls_no_Rewrite) (rule attempts_rewritten_no_Rewrite)
  show ?case
  proof (cases env vp a t rw rule: attempts_cases)
    case stop
    with Suc.prems show ?thesis by (simp add: calls_def)
  next
    case (success audio)
    with Suc.prems show ?thesis by (auto simp: calls_Cons calls_def Cons_eq_append_conv)
  next
    case (rewritten message new)
    with Suc.prems nr [of new] show ?thesis
      by (auto simp: calls_Cons Cons_eq_append_conv)
  next
    case (rewrite_failed message e)
    with Suc.prems nr [of t] show ?thesis
      by (auto simp: calls_Cons calls_append calls_retryOrFail Cons_eq_append_conv)
  next
    case (retry message)
    with Suc.prems
    have eq: "Synth (constructApiText vp t) (Inl message) # calls (attempts env vp (a + 1) t rw)
                = pre @ Rewrite x r # post"
      by (simp add: calls_Cons calls_append calls_retryOrFail)
    then obtain pre2 where pre: "pre = Synth (constructApiText vp t) (Inl message) # pre2"
      and rest: "calls (attempts env vp (a + 1) t rw) = pre2 @ Rewrite x r # post"
      by (cases pre) auto
    from Suc.hyps(2) have "k = RETRY_ATTEMPTS + 1 - (a + 1)" by simp
    from Suc.hyps(1) [OF this rest]
    obtain pre' t' m' where "pre2 = pre' @ [Synth t' (Inl m')]" "str_includes m' ''Content blocked''"
      by blast
    with pre show ?thesis by auto
  qed
qed

lemma rewrite_unique:
  assumes "length (filter is_Rewrite evs) \<le> 1" "calls evs = pre @ Rewrite x r # post"
  shows "\<forall>e \<in> set pre. \<not> is_Rewrite e"
proof -
  have "filter is_Rewrite (calls evs) = filter is_Rewrite evs"
    by (auto simp: calls_def intro: filter_cong)
  with assms have "length (filter is_Rewrite (pre @ Rewrite x r # post)) \<le> 1" by simp
  then have "filter is_Rewrite pre = []" by simp
  then show ?thesis by (simp add: filter_empty_conv)
qed

text \<open>
  C1. A run of \<open>convertLineWithRetries\<close> makes at most five synthesis calls and at most one
  rewrite call, whatever the services answer. Among the calls of the run, a rewrite call
  comes directly after a failed synthesis call whose message contains \<open>Content blocked\<close>,
  and no rewrite call precedes it.
\<close>

theorem convertLineWithRetries_calls:
  "length (filter is_Synth (convertLineWithRetries env voicePrompt line)) \<le> 5
   \<and> length (filter is_Rewrite (convertLineWithRetries env voicePrompt line)) \<le> 1
   \<and> (\<forall>pre t r post.
         calls (convertLineWithRetries env voicePrompt line) = pre @ Rewrite t r # post \<longrightarrow>
           (\<exists>pre' t' message. pre = pre' @ [Synth t' (Inl message)]
                                \<and> str_includes message ''Content blocked'')
           \<and> (\<forall>e \<in> set pre. \<not> is_Rewrite e))"
proof -
  let ?run = "convertLineWithRetries env voicePrompt line"
  let ?loop = "attempts env voicePrompt 1 (text_line line) False"
  have run: "?run = Publish SetConverting # ?loop"
    by (simp add: convertLineWithRetries_def)
  have c: "calls ?run = calls ?loop"
    by (simp add: run calls_def)
  have s: "length (filter is_Synth ?run) \<le> 5"
    using attempts_synth_count [of env voicePrompt 1 "text_line line" False]
    by (simp add: run RETRY_ATTEMPTS_def)
  have r: "length (filter is_Rewrite ?run) \<le> 1"
    using attempts_rewrite_count [of env voicePrompt 1 "text_line line" False]
    by (simp add: run)
  have p: "\<exists>pre' t' message. pre = pre' @ [Synth t' (Inl message)]
                                \<and> str_includes message ''Content blocked''"
    if "calls ?run = pre @ Rewrite t r # post" for pre t r post
    using that attempts_rewrite_preceded [of env voicePrompt 1 "text_line line" False pre t r post]
    by (simp add: c)
  show ?thesis
    using s r p rewrite_unique [OF r] by blast
qed

lemma blocked_includes: "str_includes blocked_message ''Content blocked''"
  by (simp add: blocked_message_def)

lemma quota_not_includes: "\<not> str_includes quota_message ''Content blocked''"
  by (simp add: quota_message_def)

lemma run_blocked_once:
  "convertLineWithRetries env_blocked_once [] line_hello =
     [Publish SetConverting, Synth ''Hello'' (Inl blocked_message), Publish SetRewriting,
      Rewrite ''Hello'' (Inr ''Hi''), Publish (SetRewritten ''Hi''),
      Synth ''Hi'' (Inr ''AAAA''), Publish (SetDone ''AAAA'' ''Hi'')]"
  by (simp add: convertLineWithRetries_def attempts.simps env_blocked_once_def line_hello_def
        RETRY_ATTEMPTS_def constructApiText_def blocked_includes)

lemma run_blocked_last:
  "convertLineWithRetries env_blocked_last [] line_hello =
     [Publish SetConverting,
      Synth ''Hello'' (Inl quota_message), Delay 2000,
      Synth ''Hello'' (Inl quota_message), Delay 2000,
      Synth ''Hello'' (Inl quota_message), Delay 2000,
      Synth ''Hello'' (Inl quota_message), Delay 2000,
      Synth ''Hello'' (Inl blocked_message), Publish SetRewriting,
      Rewrite ''Hello'' (Inr ''Hi''), Publish (SetRewritten ''Hi'')]"
  by (simp add: convertLineWithRetries_def attempts.simps env_blocked_last_def line_hello_def
        RETRY_ATTEMPTS_def RETRY_DELAY_MS_def constructApiText_def blocked_includes
        quota_not_includes retryOrFail_def)

text \<open>
  The run in which the first synthesis is blocked, the rewrite succeeds and the second
  synthesis succeeds: the rewrite call is the second of three calls.
\<close>

theorem convertLineWithRetries_calls_witness:
  "calls (convertLineWithRetries env_blocked_once [] line_hello) =
     [Synth ''Hello'' (Inl blocked_message)] @ Rewrite ''Hello'' (Inr ''Hi'') #
     [Synth ''Hi'' (Inr ''AAAA'')]
   \<and> (\<exists>pre' t' message. [Synth ''Hello'' (Inl blocked_message)] = pre' @ [Synth t' (Inl message)]
                          \<and> str_includes message ''Content blocked'')
   \<and> filter is_Rewrite [Synth ''Hello'' (Inl blocked_message)] = []
   \<and> length (filter is_Synth (convertLineWithRetries env_blocked_once [] line_hello)) \<le> 5
   \<and> length (filter is_Rewrite (convertLineWithRetries env_blocked_once [] line_hello)) \<le> 1"
proof -
  have eq: "calls (convertLineWithRetries env_blocked_once [] line_hello) =
     [Synth ''Hello'' (Inl blocked_message)] @ Rewrite ''Hello'' (Inr ''Hi'') #
     [Synth ''Hi'' (Inr ''AAAA'')]"
    by (simp add: run_blocked_once calls_def)
  from eq convertLineWithRetries_calls [of env_blocked_once "[]" line_hello]
  have "(\<exists>pre' t' message. [Synth ''Hello'' (Inl blocked_message)] = pre' @ [Synth t' (Inl message)]
                          \<and> str_includes message ''Content blocked'')
        \<and> length (filter is_Synth (convertLineWithRetries env_blocked_once [] line_hello)) \<le> 5
        \<and> length (filter is_Rewrite (convertLineWithRetries env_blocked_once [] line_hello)) \<le> 1"
    by blast
  with eq show ?thesis by simp
qed

lemma patches_append: "patches (xs @ ys) = patches xs @ patches ys"
  by (induction xs rule: patches.induct) simp_all

lemma patches_retryOrFail:
  "patches (retryOrFail a t rw m) =
     (if a < RETRY_ATTEMPTS then []
      else [SetError (if rw then ''The rewritten text was also blocked or failed. Last error: '' @ m
                      else m) t])"
  by (simp add: retryOrFail_def Let_def)

lemma attempts_stop: "RETRY_ATTEMPTS < a \<Longrightarrow> attempts env vp a t rw = []"
  by (subst attempts.simps) simp

lemma shape_Cons:
  assumes "\<exists>k fin. xs = replicate k Converting @ fin \<and> (fin = [] \<or> fin = [Done] \<or> fin = [Error])"
  shows "\<exists>k fin. Converting # xs = replicate k Converting @ fin
                  \<and> (fin = [] \<or> fin = [Done] \<or> fin = [Error])"
proof -
  from assms obtain k fin where "xs = replicate k Converting @ fin"
    "fin = [] \<or> fin = [Done] \<or> fin = [Error]" by blast
  then have "Converting # xs = replicate (Suc k) Converting @ fin" by simp
  with \<open>fin = [] \<or> fin = [Done] \<or> fin = [Error]\<close> show ?thesis by blast
qed

lemma shape_final:
  "fin = [] \<or> fin = [Done] \<or> fin = [Error] \<Longrightarrow>
   \<exists>k fin'. fin = replicate k Converting @ fin' \<and> (fin' = [] \<or> fin' = [Done] \<or> fin' = [Error])"
  by (rule exI [of _ 0]) simp

lemma attempts_statuses:
  "status_line l = Converting \<Longrightarrow>
   \<exists>k fin. statuses l (patches (attempts env vp a t rw)) = replicate k Converting @ fin
           \<and> (fin = [] \<or> fin = [Done] \<or> fin = [Error])"
proof (induction "RETRY_ATTEMPTS + 1 - a" arbitrary: a t rw l)
  case 0
  then have "RETRY_ATTEMPTS < a" by simp
  then show ?case by (simp add: attempts_stop)
next
  case (Suc k)
  from Suc.hyps(2) have k': "k = RETRY_ATTEMPTS + 1 - (a + 1)" by simp
  note ih = Suc.hyps(1) [OF k']
  show ?case
  proof (cases env vp a t rw rule: attempts_cases)
    case stop
    then show ?thesis by simp
  next
    case (success audio)
    then show ?thesis by (simp add: shape_final)
  next
    case (rewritten message new)
    let ?l = "apply_patch (SetRewritten new) (apply_patch SetRewriting l)"
    have "status_line ?l = Converting" using Suc.prems by simp
    from ih [OF this, of new True] rewritten(4) Suc.prems show ?thesis
      by (simp add: shape_Cons)
  next
    case (rewrite_failed message e)
    let ?l = "apply_patch SetRewriting l"
    have l: "status_line ?l = Converting" using Suc.prems by simp
    show ?thesis
    proof (cases "a < RETRY_ATTEMPTS")
      case True
      with ih [OF l, of t True] rewrite_failed(4) Suc.prems show ?thesis
        by (simp add: shape_Cons patches_append patches_retryOrFail)
    next
      case False
      then have "attempts env vp (a + 1) t True = []" by (simp add: attempts_stop)
      with False rewrite_failed(4) Suc.prems show ?thesis
        by (simp add: patches_append patches_retryOrFail shape_Cons shape_final)
    qed
  next
    case (retry message)
    show ?thesis
    proof (cases "a < RETRY_ATTEMPTS")
      case True
      with ih [OF Suc.prems, of t rw] retry(3) show ?thesis
        by (simp add: patches_append patches_retryOrFail)
    next
      case False
      then have "attempts env vp (a + 1) t rw = []" by (simp add: attempts_stop)
      with False retry(3) Suc.prems show ?thesis
        by (simp add: patches_append patches_retryOrFail shape_final)
    qed
  qed
qed

text \<open>
  C2, as the code has it. Whatever the status of the line when a run starts, the statuses
  it shows after the published patches of the run are: \<open>Converting\<close> one or more times, then
  at most one of \<open>Done\<close> and \<open>Error\<close>, with which the run ends. Within a run the status
  never goes back from \<open>Done\<close> or \<open>Error\<close>, and the intermediate patches leave it at
  \<open>Converting\<close>.
\<close>

theorem convertLineWithRetries_statuses:
  "\<exists>k fin. statuses l (patches (convertLineWithRetries env voicePrompt line))
             = replicate (Suc k) Converting @ fin
           \<and> (fin = [] \<or> fin = [Done] \<or> fin = [Error])"
proof -
  let ?l = "apply_patch SetConverting l"
  have "status_line ?l = Converting" by simp
  from attempts_statuses [OF this, of env voicePrompt 1 "text_line line" False]
  show ?thesis by (simp add: convertLineWithRetries_def)
qed

text \<open>
  C2 as stated fails across runs: \<open>handleRetryLine\<close> starts a run on a line whose status is
  \<open>Error\<close> (the retry button is shown for exactly these lines), and the first update of the
  run takes the line from \<open>Error\<close> back to \<open>Converting\<close>.
\<close>

theorem handleRetryLine_reverts_Error:
  "map status_line (lines (hd (files (app_of [file_of Done [line_failed]])))) = [Error]
   \<and> hd (handleRetryLine env_blocked_once [] (app_of [file_of Done [line_failed]]) ''a.txt-1'' ''001'')
       = LineUpdate ''a.txt-1'' ''001'' SetConverting
   \<and> map status_line (lines (hd (files
         (apply_update (LineUpdate ''a.txt-1'' ''001'' SetConverting)
            (app_of [file_of Done [line_failed]]))))) = [Converting]"
  by (simp add: handleRetryLine_def app_of_def file_of_def line_failed_def line_hello_def
        lineUpdates_def convertLineWithRetries_def)

lemma retryOrFail_no_SetDone: "Publish (SetDone audio t) \<notin> set (retryOrFail a tx rw m)"
  by (simp add: retryOrFail_def Let_def)

lemma attempts_SetDone:
  "Publish (SetDone audio t) \<in> set (attempts env vp a tx rw) \<Longrightarrow>
   \<exists>a' sent. textToSpeech env a' sent = Inr audio"
proof (induction "RETRY_ATTEMPTS + 1 - a" arbitrary: a tx rw)
  case 0
  then have "RETRY_ATTEMPTS < a" by simp
  with 0 show ?case by (simp add: attempts_stop)
next
  case (Suc k)
  from Suc.hyps(2) have k': "k = RETRY_ATTEMPTS + 1 - (a + 1)" by simp
  note ih = Suc.hyps(1) [OF k']
  show ?case
  proof (cases env vp a tx rw rule: attempts_cases)
    case stop
    with Suc.prems show ?thesis by simp
  next
    case (success audio')
    have "textToSpeech env a (constructApiText vp tx) = Inr audio'"
    proof (cases "textToSpeech env a (constructApiText vp tx)")
      case (Inl m)
      with success show ?thesis
        by (simp add: attempts.simps [of env vp a tx rw] Let_def split: if_splits sum.splits)
    next
      case (Inr x)
      with success show ?thesis
        by (simp add: attempts.simps [of env vp a tx rw] Let_def)
    qed
    with success Suc.prems show ?thesis by auto
  next
    case (rewritten message new)
    with Suc.prems ih [of new True] show ?thesis by auto
  next
    case (rewrite_failed message e)
    with Suc.prems ih [of tx True] retryOrFail_no_SetDone show ?thesis by auto
  next
    case (retry message)
    with Suc.prems ih [of tx rw] retryOrFail_no_SetDone show ?thesis by auto
  qed
qed

lemma convertLineWithRetries_SetDone:
  assumes "\<And>a sent audio. textToSpeech env a sent = Inr audio \<Longrightarrow> audio \<noteq> []"
    and "SetDone audio t \<in> set (patches (convertLineWithRetries env voicePrompt line))"
  shows "audio \<noteq> []"
proof -
  have "p \<in> set (patches evs) \<Longrightarrow> Publish p \<in> set evs" for p evs
    by (induction evs rule: patches.induct) auto
  from this [OF assms(2)] have "Publish (SetDone audio t) \<in> set (attempts env voicePrompt 1 (text_line line) False)"
    by (simp add: convertLineWithRetries_def)
  from attempts_SetDone [OF this] assms(1) show ?thesis by blast
qed


section \<open>The status of a batch after its handlers\<close>

text \<open>
  \<open>handleBatchConvert\<close> ends by marking the file \<open>Done\<close>, whatever its lines have become
  and in whatever order their updates took effect; \<open>handleRetryLine\<close> ends by marking it
  \<open>Done\<close> when every line is \<open>Done\<close> or \<open>Error\<close>.
\<close>

lemma run_updates_append: "run_updates (us @ vs) st = run_updates vs (run_updates us st)"
  by (simp add: run_updates_def)

lemma handleBatchConvert_split:
  assumes "isKeySaved st" "find (\<lambda>f. id_file f = fileId) (files st) = Some fileToConvert"
  shows "\<exists>us. handleBatchConvert envs voicePrompt sched st fileId
              = us @ [FileStatus fileId Done, ConvertingFileId None]"
  unfolding handleBatchConvert_def Let_def using assms
  apply (simp only: if_False simp_thms option.case)
  apply (simp only: append_assoc [symmetric])
  apply (rule exI)
  apply (rule refl)
  done

lemma files_FileStatus:
  "files (apply_update (ConvertingFileId v) (apply_update (FileStatus fileId s) st))
     = map (\<lambda>f. if id_file f = fileId then f\<lparr>status_file := s\<rparr> else f) (files st)"
  by simp

lemma handleBatchConvert_marks_Done:
  assumes "isKeySaved st" "find (\<lambda>f. id_file f = fileId) (files st) = Some fileToConvert"
    and "f \<in> set (files (run_updates (handleBatchConvert envs voicePrompt sched st fileId) st))"
    and "id_file f = fileId"
  shows "status_file f = Done"
proof -
  from handleBatchConvert_split [OF assms(1,2)]
  obtain us where us: "handleBatchConvert envs voicePrompt sched st fileId
                         = us @ [FileStatus fileId Done, ConvertingFileId None]"
    by blast
  define st' where "st' = fold apply_update us st"
  have "run_updates (handleBatchConvert envs voicePrompt sched st fileId) st
          = apply_update (ConvertingFileId None) (apply_update (FileStatus fileId Done) st')"
    unfolding us run_updates_def st'_def by (simp only: fold_append fold_simps o_apply)
  then have "files (run_updates (handleBatchConvert envs voicePrompt sched st fileId) st)
          = map (\<lambda>f. if id_file f = fileId then f\<lparr>status_file := Done\<rparr> else f) (files st')"
    by (simp only: files_FileStatus)
  with assms(3) obtain g where "g \<in> set (files st')"
    "f = (if id_file g = fileId then g\<lparr>status_file := Done\<rparr> else g)"
    by auto
  with assms(4) show ?thesis by (cases "id_file g = fileId") simp_all
qed

lemma handleRetryLine_split:
  assumes "handleRetryLine env voicePrompt st fileId lineId \<noteq> []"
  shows "\<exists>us. handleRetryLine env voicePrompt st fileId lineId = us @ [Recount fileId]"
proof (cases "isKeySaved st")
  case False
  with assms show ?thesis by (simp add: handleRetryLine_def)
next
  case key: True
  show ?thesis
  proof (cases "find (\<lambda>f. id_file f = fileId) (files st)")
    case None
    with assms key show ?thesis by (simp add: handleRetryLine_def)
  next
    case (Some fileState)
    show ?thesis
    proof (cases "find (\<lambda>l. id_line l = lineId) (lines fileState)")
      case None
      with assms key Some show ?thesis by (simp add: handleRetryLine_def)
    next
      case ln: (Some theLine)
      show ?thesis
      proof (cases "convertingFileId st \<noteq> None \<or> isBatchConvertingAll st")
        case True
        with assms key Some ln show ?thesis by (simp add: handleRetryLine_def)
      next
        case False
        with key Some ln have "handleRetryLine env voicePrompt st fileId lineId
            = lineUpdates fileId theLine (convertLineWithRetries env voicePrompt theLine) @ [Recount fileId]"
          by (simp add: handleRetryLine_def)
        then show ?thesis by (rule exI)
      qed
    qed
  qed
qed

lemma count_terminal:
  "\<forall>l \<in> set ls. status_line l = Done \<or> status_line l = Error \<Longrightarrow>
   length (filter (\<lambda>l. status_line l = Done) ls) + length (filter (\<lambda>l. status_line l = Error) ls)
     = length ls"
  by (induction ls) auto

lemma handleRetryLine_recount:
  assumes "handleRetryLine env voicePrompt st fileId lineId \<noteq> []"
    and "f \<in> set (files (run_updates (handleRetryLine env voicePrompt st fileId lineId) st))"
    and "id_file f = fileId"
    and "\<forall>l \<in> set (lines f). status_line l = Done \<or> status_line l = Error"
  shows "status_file f = Done"
proof -
  from handleRetryLine_split [OF assms(1)]
  obtain us where us: "handleRetryLine env voicePrompt st fileId lineId = us @ [Recount fileId]"
    by blast
  define st' where "st' = fold apply_update us st"
  have "run_updates (handleRetryLine env voicePrompt st fileId lineId) st
          = apply_update (Recount fileId) st'"
    unfolding us run_updates_def st'_def by (simp only: fold_append fold_simps o_apply)
  with assms(2) obtain g where g: "g \<in> set (files st')"
    and f: "f = (if id_file g \<noteq> fileId then g
                 else (let doneCount = length (filter (\<lambda>l. status_line l = Done) (lines g));
                           errorCount = length (filter (\<lambda>l. status_line l = Error) (lines g))
                       in if doneCount + errorCount = length (lines g)
                          then g\<lparr>status_file := Done\<rparr> else g))"
    by auto
  show ?thesis
  proof (cases "id_file g = fileId")
    case False
    with f assms(3) show ?thesis by simp
  next
    case True
    show ?thesis
    proof (cases "length (filter (\<lambda>l. status_line l = Done) (lines g))
                   + length (filter (\<lambda>l. status_line l = Error) (lines g)) = length (lines g)")
      case c: True
      with True f show ?thesis by (simp add: Let_def)
    next
      case c: False
      with True f have "f = g" by (simp add: Let_def)
      with assms(4) count_terminal [of "lines g"] c show ?thesis by simp
    qed
  qed
qed

text \<open>
  C3 at a failing input. A batch of one line whose first four synthesis attempts fail for
  another reason and whose fifth is blocked: the rewrite succeeds, the \<^verbatim>\<open>continue\<close> leaves
  the loop with no attempt left, and no final status is published. \<open>handleBatchConvert\<close>
  then marks the batch \<open>Done\<close> while its line is still \<open>Converting\<close>.
\<close>

theorem handleBatchConvert_stuck_line:
  "map (\<lambda>f. (status_file f, map status_line (lines f)))
     (files (run_updates
        (handleBatchConvert (\<lambda>i. env_blocked_last) [] [] (app_of [file_of Pending [line_hello]]) ''a.txt-1'')
        (app_of [file_of Pending [line_hello]])))
   = [(Done, [Converting])]"
  by (simp add: handleBatchConvert_def run_updates_def app_of_def file_of_def lineUpdates_def
        run_blocked_last)


section \<open>Concatenation and the failure of a merge\<close>

lemma ToIntegerOrInfinity_of_nat: "ToIntegerOrInfinity (of_nat n) = int n"
  by (simp add: ToIntegerOrInfinity_def)

lemma typedArray_set_of_nat: "typedArray_set target source (of_nat n) = set_bytes target source n"
  by (simp add: typedArray_set_def ToIntegerOrInfinity_of_nat)

lemma foldl_lengths:
  "foldl (\<lambda>acc chunk. acc + length chunk) n chunks = n + sum_list (map length chunks)"
  by (induction chunks arbitrary: n) simp_all

lemma copyChunks_zeros:
  "copyChunks chunks (length p) (p @ replicate (sum_list (map length chunks)) 0)
     = Inr (p @ concat chunks)"
proof (induction chunks arbitrary: p)
  case Nil
  then show ?case by simp
next
  case (Cons c chunks)
  let ?rest = "replicate (sum_list (map length chunks)) (0::byte)"
  have "typedArray_set (p @ replicate (sum_list (map length (c # chunks))) 0) c (of_nat (length p))
          = Inr ((p @ c) @ ?rest)"
    by (simp add: typedArray_set_of_nat set_bytes_def replicate_add)
  moreover have "copyChunks chunks (length (p @ c)) ((p @ c) @ ?rest) = Inr ((p @ c) @ concat chunks)"
    by (rule Cons.IH)
  ultimately show ?case by (simp add: bind_e_Inr)
qed

lemma filter_wf:
  "lines_wf ls \<Longrightarrow>
   filter (\<lambda>line. status_line line = Done \<and> truthy (audioData line)) ls
     = filter (\<lambda>line. status_line line = Done) ls"
  by (rule filter_cong) (auto simp: lines_wf_def list_all_iff)

text \<open>
  C5. For a batch with at least one \<open>Done\<close> line, whose \<open>Done\<close> lines carry their payload
  and whose payloads decode, the concatenating merge returns the decoded payloads of exactly
  the \<open>Done\<close> lines, in list order, one directly after the other; its length is the sum of
  the lengths of the decoded chunks.
\<close>

theorem mergeConcat_concat:
  assumes "lines_wf ls"
    and "\<exists>line \<in> set ls. status_line line = Done"
    and "map_e (\<lambda>line. decode (payload line)) (filter (\<lambda>line. status_line line = Done) ls)
           = Inr pcmChunks"
  shows "mergeConcat ls = Inr (concat pcmChunks)
         \<and> length (concat pcmChunks) = sum_list (map length pcmChunks)"
proof -
  from assms(2) have ne: "filter (\<lambda>line. status_line line = Done) ls \<noteq> []"
    by (simp add: filter_empty_conv)
  have "copyChunks pcmChunks 0 (replicate (sum_list (map length pcmChunks)) 0) = Inr (concat pcmChunks)"
    using copyChunks_zeros [of pcmChunks "[]"] by simp
  then have "mergeConcat ls = Inr (concat pcmChunks)"
    using ne assms(3)
    by (simp add: mergeConcat_def Let_def filter_wf [OF assms(1)] bind_e_Inr foldl_lengths
          new_Uint8Array_def)
  then show ?thesis by (simp add: length_concat)
qed

lemma decode_AQID: "decode ''AQID'' = Inr [1, 2, 3]"
  by code_simp

lemma decode_BAU: "decode ''BAU='' = Inr [4, 5]"
  by code_simp

text \<open>Three lines, the second failed: the merge is the first payload followed by the third.\<close>

theorem mergeConcat_concat_witness:
  "lines_wf [line_audio ''001'' ''AQID'' None None, line_failed, line_audio ''003'' ''BAU='' None None]
   \<and> (\<exists>line \<in> set [line_audio ''001'' ''AQID'' None None, line_failed,
                      line_audio ''003'' ''BAU='' None None]. status_line line = Done)
   \<and> map_e (\<lambda>line. decode (payload line))
        (filter (\<lambda>line. status_line line = Done)
           [line_audio ''001'' ''AQID'' None None, line_failed, line_audio ''003'' ''BAU='' None None])
        = Inr [[1, 2, 3], [4, 5]]
   \<and> mergeConcat [line_audio ''001'' ''AQID'' None None, line_failed,
                   line_audio ''003'' ''BAU='' None None] = Inr [1, 2, 3, 4, 5]"
proof -
  let ?ls = "[line_audio ''001'' ''AQID'' None None, line_failed, line_audio ''003'' ''BAU='' None None]"
  have wf: "lines_wf ?ls"
    by (simp add: lines_wf_def line_audio_def line_failed_def line_hello_def truthy_def)
  have ex: "\<exists>line \<in> set ?ls. status_line line = Done"
    by (simp add: line_audio_def)
  have dec: "map_e (\<lambda>line. decode (payload line)) (filter (\<lambda>line. status_line line = Done) ?ls)
               = Inr [[1, 2, 3], [4, 5]]"
    by (simp add: line_audio_def line_failed_def line_hello_def payload_def decode_AQID decode_BAU
          bind_e_Inr)
  from mergeConcat_concat [OF wf ex dec] wf ex dec show ?thesis by simp
qed

lemma decode_error: "decode s = Inl e \<Longrightarrow> e = InvalidCharacterError"
  by (simp add: decode_def split: option.splits)

lemma map_e_error: "map_e f xs = Inl e \<Longrightarrow> \<exists>x \<in> set xs. f x = Inl e"
  by (induction xs arbitrary: e) (auto simp: bind_e_def split: sum.splits)

lemma set_bytes_error: "set_bytes target source off = Inl e \<Longrightarrow> e = RangeError"
  by (simp add: set_bytes_def split: if_splits)

lemma typedArray_set_error: "typedArray_set target source offset = Inl e \<Longrightarrow> e = RangeError"
  by (auto simp: typedArray_set_def Let_def split: if_splits dest: set_bytes_error)

lemma new_Uint8Array_error: "new_Uint8Array n = Inl e \<Longrightarrow> e = RangeError"
  by (simp add: new_Uint8Array_def split: if_splits)

lemma copyChunks_error: "copyChunks chunks off m = Inl e \<Longrightarrow> e = RangeError"
  by (induction chunks arbitrary: off m)
     (auto simp: bind_e_def split: sum.splits dest: typedArray_set_error)

lemma placeLine_error: "placeLine line m = Inl e \<Longrightarrow> e \<noteq> NoSuccessfulLines"
  by (auto simp: placeLine_def bind_e_def Let_def split: option.splits if_splits sum.splits
           dest: typedArray_set_error decode_error)

lemma placeLines_error: "placeLines ls m = Inl e \<Longrightarrow> e \<noteq> NoSuccessfulLines"
  by (induction ls arbitrary: m)
     (auto simp: bind_e_def split: sum.splits dest: placeLine_error)

lemma mergeConcat_NoSuccessfulLines:
  "mergeConcat ls = Inl NoSuccessfulLines \<longleftrightarrow>
   filter (\<lambda>line. status_line line = Done \<and> truthy (audioData line)) ls = []"
  by (auto simp: mergeConcat_def Let_def bind_e_def
           split: sum.splits dest: map_e_error decode_error new_Uint8Array_error copyChunks_error)

lemma mergeTimed_NoSuccessfulLines:
  "mergeTimed ls = Inl NoSuccessfulLines \<longleftrightarrow> successfulTimedLines ls = []"
  by (auto simp: mergeTimed_def Let_def bind_e_def
           split: sum.splits dest: new_Uint8Array_error placeLines_error)

lemma pcmToWavBlob_Inr: "\<exists>wav. pcmToWavBlob pcm = Inr wav"
  by (simp add: pcmToWavBlob_eq)

lemma mergeHandler_globalError:
  assumes "find (\<lambda>f. id_file f = fileId) (files st) = Some f"
  shows "globalError (fst (mergeHandler merge st fileId)) = Some e \<longleftrightarrow> merge (lines f) = Inl e"
proof (cases "merge (lines f)")
  case (Inl e')
  with assms show ?thesis by (simp add: mergeHandler_def Let_def bind_e_Inl)
next
  case (Inr pcm)
  obtain wav where "pcmToWavBlob pcm = Inr wav" using pcmToWavBlob_Inr by blast
  with Inr assms show ?thesis by (simp add: mergeHandler_def Let_def bind_e_Inr)
qed

lemma lines_setIsMerging: "map lines (setIsMerging fileId b fs) = map lines fs"
  by (simp add: setIsMerging_def)

lemma mergeHandler_lines: "map lines (files (fst (mergeHandler merge st fileId))) = map lines (files st)"
  by (simp add: mergeHandler_def Let_def lines_setIsMerging split: option.splits sum.splits)

text \<open>
  C8. For a file of well-formed lines, the concatenating handler fails with
  \<open>NoSuccessfulLines\<close> exactly when no line is \<open>Done\<close>, and the timed handler exactly when
  no line is \<open>Done\<close> with an end time. Neither handler changes any line of any file, whether
  it fails or not.
\<close>

theorem merge_NoSuccessfulLines:
  assumes "find (\<lambda>f. id_file f = fileId) (files st) = Some f"
    and "lines_wf (lines f)"
  shows "(globalError (fst (handleDownloadConcatMerged st fileId)) = Some NoSuccessfulLines
            \<longleftrightarrow> (\<forall>line \<in> set (lines f). status_line line \<noteq> Done))
       \<and> (globalError (fst (handleDownloadSrtMerged st fileId)) = Some NoSuccessfulLines
            \<longleftrightarrow> (\<forall>line \<in> set (lines f). \<not> (status_line line = Done \<and> endTimeMs line \<noteq> None)))
       \<and> map lines (files (fst (handleDownloadConcatMerged st fileId))) = map lines (files st)
       \<and> map lines (files (fst (handleDownloadSrtMerged st fileId))) = map lines (files st)"
proof -
  have wf: "status_line line = Done \<Longrightarrow> truthy (audioData line)" if "line \<in> set (lines f)" for line
    using assms(2) that by (simp add: lines_wf_def list_all_iff)
  have c: "globalError (fst (handleDownloadConcatMerged st fileId)) = Some NoSuccessfulLines
            \<longleftrightarrow> (\<forall>line \<in> set (lines f). status_line line \<noteq> Done)"
    unfolding handleDownloadConcatMerged_def mergeHandler_globalError [OF assms(1)]
      mergeConcat_NoSuccessfulLines
    using wf by (auto simp: filter_empty_conv)
  have t: "globalError (fst (handleDownloadSrtMerged st fileId)) = Some NoSuccessfulLines
            \<longleftrightarrow> (\<forall>line \<in> set (lines f). \<not> (status_line line = Done \<and> endTimeMs line \<noteq> None))"
    unfolding handleDownloadSrtMerged_def mergeHandler_globalError [OF assms(1)]
      mergeTimed_NoSuccessfulLines successfulTimedLines_def
    using wf by (auto simp: filter_empty_conv)
  show ?thesis
    using c t
    by (simp add: handleDownloadConcatMerged_def handleDownloadSrtMerged_def mergeHandler_lines)
qed

text \<open>A finished file whose only line failed: both handlers fail, the line is as it was.\<close>

theorem merge_NoSuccessfulLines_witness:
  "find (\<lambda>f. id_file f = ''a.txt-1'') (files (app_of [file_of Done [line_failed]]))
     = Some (file_of Done [line_failed])
   \<and> lines_wf (lines (file_of Done [line_failed]))
   \<and> globalError (fst (handleDownloadConcatMerged (app_of [file_of Done [line_failed]]) ''a.txt-1''))
       = Some NoSuccessfulLines
   \<and> globalError (fst (handleDownloadSrtMerged (app_of [file_of Done [line_failed]]) ''a.txt-1''))
       = Some NoSuccessfulLines
   \<and> map lines (files (fst (handleDownloadConcatMerged (app_of [file_of Done [line_failed]]) ''a.txt-1'')))
       = [[line_failed]]
   \<and> map lines (files (fst (handleDownloadSrtMerged (app_of [file_of Done [line_failed]]) ''a.txt-1'')))
       = [[line_failed]]"
proof -
  have f: "find (\<lambda>f. id_file f = ''a.txt-1'') (files (app_of [file_of Done [line_failed]]))
             = Some (file_of Done [line_failed])"
    by (simp add: app_of_def file_of_def)
  have wf: "lines_wf (lines (file_of Done [line_failed]))"
    by (simp add: lines_wf_def file_of_def line_failed_def)
  have l: "lines (file_of Done [line_failed]) = [line_failed]" "status_line line_failed = Error"
    "map lines (files (app_of [file_of Done [line_failed]])) = [[line_failed]]"
    by (simp_all add: file_of_def line_failed_def app_of_def)
  from merge_NoSuccessfulLines [OF f wf] f wf l show ?thesis by simp
qed

lemma apply_patch_wf:
  assumes "status_line l = Done \<longrightarrow> truthy (audioData l)"
    and "\<And>audio t. p = SetDone audio t \<Longrightarrow> audio \<noteq> []"
  shows "status_line (apply_patch p l) = Done \<longrightarrow> truthy (audioData (apply_patch p l))"
  using assms by (cases p) (auto simp: truthy_def)

lemma lines_wf_map_patch:
  assumes "lines_wf ls" "\<And>audio t. p = SetDone audio t \<Longrightarrow> audio \<noteq> []"
  shows "lines_wf (map (\<lambda>l. if id_line l = lineId then apply_patch p l else l) ls)"
  using assms(1) apply_patch_wf [OF _ assms(2)]
  by (auto simp: lines_wf_def list_all_iff)


section \<open>The timed merge\<close>

lemma bytesPerSecond_eq: "bytesPerSecond = 48000"
  by (simp add: bytesPerSecond_def)

lemma set_bytes_length: "set_bytes target source off = Inr t' \<Longrightarrow> length t' = length target"
  by (auto simp: set_bytes_def split: if_splits)

lemma typedArray_set_length:
  "typedArray_set target source offset = Inr t' \<Longrightarrow> length t' = length target"
  by (auto simp: typedArray_set_def Let_def split: if_splits dest: set_bytes_length)

lemma placeLine_length: "placeLine line m = Inr m' \<Longrightarrow> length m' = length m"
  by (auto simp: placeLine_def bind_e_def Let_def
           split: option.splits if_splits sum.splits dest: typedArray_set_length)

lemma placeLines_length: "placeLines ls m = Inr m' \<Longrightarrow> length m' = length m"
proof (induction ls arbitrary: m)
  case Nil
  then show ?case by simp
next
  case (Cons line ls)
  then show ?case
    by (auto simp: bind_e_def split: sum.splits dest: placeLine_length)
qed

lemma Math_max_Max: "xs \<noteq> [] \<Longrightarrow> Math_max xs = Max (set xs)"
  by (cases xs) (simp_all add: Max.set_eq_fold [symmetric])

lemma endTimes_successful_ne: "successfulTimedLines ls \<noteq> [] \<Longrightarrow> endTimes (successfulTimedLines ls) \<noteq> []"
  by (cases "successfulTimedLines ls")
     (auto simp: endTimes_def successfulTimedLines_def filter_eq_Cons_iff)

lemma mergeTimed_length:
  assumes "mergeTimed ls = Inr out"
  shows "successfulTimedLines ls \<noteq> []"
    and "int (length out) = finalTotalBytes (Math_max (endTimes (successfulTimedLines ls)))"
proof -
  from assms show ne: "successfulTimedLines ls \<noteq> []"
    by (auto simp: mergeTimed_def Let_def)
  let ?n = "finalTotalBytes (Math_max (endTimes (successfulTimedLines ls)))"
  from assms ne obtain m where m: "new_Uint8Array ?n = Inr m"
    and p: "placeLines (successfulTimedLines ls) m = Inr out"
    by (auto simp: mergeTimed_def Let_def bind_e_def split: sum.splits)
  from m have "0 \<le> ?n" "length m = nat ?n"
    by (auto simp: new_Uint8Array_def split: if_splits)
  with placeLines_length [OF p] show "int (length out) = ?n" by simp
qed

text \<open>
  The two roundings of the conversion from milliseconds to bytes move the product by less
  than one byte, so the length of the canvas is \<open>48 * (t + 2000)\<close> or two bytes more.
\<close>

lemma finalTotalBytes_bounds:
  assumes "0 \<le> t" "t < 2 ^ 40"
  shows "finalTotalBytes t = 48 * (t + 2000) \<or> finalTotalBytes t = 48 * (t + 2000) + 2"
proof -
  define T where "T = t + 2000"
  have T: "0 < T" "T < 2 ^ 41" using assms by (simp_all add: T_def)
  define x1 where "x1 = fl (of_int T / 1000)"
  define x2 where "x2 = fl (x1 * 48000)"
  have add: "js_add (of_int t) 2000 = of_int T"
  proof -
    have "\<bar>T\<bar> < 2 ^ 53" using T by simp
    from fl_of_int [OF this] show ?thesis by (simp add: js_add_def T_def)
  qed
  have tb: "\<lceil>js_mul (js_div (js_add (of_int t) 2000) 1000) bytesPerSecond\<rceil> = \<lceil>x2\<rceil>"
    by (simp add: add js_mul_def js_div_def x1_def x2_def bytesPerSecond_def)
  have Tr: "(0::rat) < of_int T" "(of_int T :: rat) < 2 ^ 41" using T
    by (simp, metis of_int_less_numeral_power_cancel_iff)
  have e1: "\<bar>x1 - of_int T / 1000\<bar> \<le> of_int T / 1000 / 2 ^ 53"
    using fl_error [of "of_int T / 1000"] Tr(1) by (simp add: x1_def)
  have e2: "\<bar>x2 - x1 * 48000\<bar> \<le> \<bar>x1 * 48000\<bar> / 2 ^ 53"
    using fl_error [of "x1 * 48000"] by (simp add: x2_def)
  have "of_int T / 1000 / 2 ^ 53 \<le> (of_int T / 1000 :: rat)"
    using Tr(1) by (simp add: field_simps)
  with e1 have "\<bar>x1 - of_int T / 1000\<bar> \<le> of_int T / 1000" by linarith
  then have x1b: "\<bar>x1\<bar> \<le> of_int T / 500"
    by linarith
  define a where "a = x2 - x1 * 48000"
  define b where "b = x1 - of_int T / 1000"
  have ab: "x2 - 48 * of_int T = a + 48000 * b"
    by (simp add: a_def b_def)
  have "\<bar>a + 48000 * b\<bar> \<le> \<bar>a\<bar> + \<bar>48000 * b\<bar>"
    by (rule abs_triangle_ineq)
  also have "\<bar>48000 * b\<bar> = 48000 * \<bar>b\<bar>"
    by (simp add: abs_mult)
  finally have "\<bar>x2 - 48 * of_int T\<bar> \<le> \<bar>x2 - x1 * 48000\<bar> + 48000 * \<bar>x1 - of_int T / 1000\<bar>"
    unfolding ab [symmetric] by (simp only: a_def b_def)
  also have "\<dots> \<le> (of_int T / 500 * 48000) / 2 ^ 53 + 48000 * (of_int T / 1000 / 2 ^ 53)"
    using e1 e2 x1b by (simp add: abs_mult field_simps)
  also have "\<dots> < 1"
    using Tr(2) by (simp add: field_simps)
  finally have close: "\<bar>x2 - 48 * of_int T\<bar> < 1" .
  then have "\<lceil>x2\<rceil> = 48 * T \<or> \<lceil>x2\<rceil> = 48 * T + 1"
    by (simp add: abs_less_iff) linarith
  then show ?thesis
    unfolding finalTotalBytes_def Let_def tb T_def [symmetric]
    by (auto simp: algebra_simps)
qed

text \<open>
  For a start offset that is a whole number of bytes, one iteration of the placement loop
  does one of three things: it copies the whole chunk (\<open>placeLine_fits\<close>), it copies the
  prefix that fits (\<open>placeLine_truncates\<close>), or, when the chunk starts beyond the end of the
  canvas, it raises (\<open>placeLine_beyond\<close>).
\<close>

lemma placeLine_skips:
  "startTimeMs line = None \<Longrightarrow> placeLine line m = Inr m"
  by (simp add: placeLine_def)

lemma placeLine_fits:
  assumes "startTimeMs line = Some s" "truthy (audioData line)" "decode (payload line) = Inr chunk"
    and "js_mul (js_div (of_int s) 1000) bytesPerSecond = of_nat off"
    and "off + length chunk \<le> length m" "length m < 2 ^ 53"
  shows "placeLine line m = Inr (take off m @ chunk @ drop (off + length chunk) m)"
proof -
  have "off + length chunk < 2 ^ 53" using assms(5,6) by simp
  then have "js_add (of_nat off) (of_nat (length chunk)) = of_nat (off + length chunk)"
    using fl_of_nat [of "off + length chunk"] by (simp add: js_add_def)
  with assms show ?thesis
    by (simp add: placeLine_def bind_e_Inr Let_def typedArray_set_of_nat set_bytes_def
          del: of_nat_add)
qed

lemma placeLine_truncates:
  assumes "startTimeMs line = Some s" "truthy (audioData line)" "decode (payload line) = Inr chunk"
    and "js_mul (js_div (of_int s) 1000) bytesPerSecond = of_nat off"
    and "off \<le> length m" "length m < off + length chunk" "off + length chunk < 2 ^ 53"
  shows "placeLine line m = Inr (take off m @ take (length m - off) chunk)"
proof -
  have "js_add (of_nat off) (of_nat (length chunk)) = of_nat (off + length chunk)"
    using fl_of_nat [of "off + length chunk"] assms(7) by (simp add: js_add_def)
  moreover have "js_sub (of_nat (length m)) (of_nat off) = of_nat (length m - off)"
  proof -
    have "length m - off < 2 ^ 53" using assms(6,7) by simp
    from fl_of_nat [OF this] assms(5) show ?thesis
      by (simp add: js_sub_def)
  qed
  moreover have "typedArray_slice chunk 0 (of_nat (length m - off)) = take (length m - off) chunk"
    using assms(6) by (simp add: typedArray_slice_def ToIntegerOrInfinity_of_nat ToIntegerOrInfinity_def Let_def)
  ultimately show ?thesis
    using assms
    by (simp add: placeLine_def bind_e_Inr Let_def typedArray_set_of_nat set_bytes_def
          del: of_nat_add)
qed

lemma placeLine_beyond:
  assumes "startTimeMs line = Some s" "truthy (audioData line)" "decode (payload line) = Inr chunk"
    and "js_mul (js_div (of_int s) 1000) bytesPerSecond = of_nat off"
    and "length m < off" "off + length chunk < 2 ^ 53"
  shows "placeLine line m = Inl RangeError"
proof -
  have "js_add (of_nat off) (of_nat (length chunk)) = of_nat (off + length chunk)"
    using fl_of_nat [of "off + length chunk"] assms(6) by (simp add: js_add_def)
  moreover have "typedArray_set m src (of_nat off) = Inl RangeError" for src
    using assms(5) by (simp add: typedArray_set_of_nat set_bytes_def)
  ultimately show ?thesis
    using assms
    by (simp add: placeLine_def bind_e_Inr Let_def del: of_nat_add)
qed

lemma startByte_0: "js_mul (js_div 0 1000) bytesPerSecond = 0"
  by (simp add: js_mul_def js_div_def fl_def)

lemma startByte_2000: "js_mul (js_div 2000 1000) bytesPerSecond = 96000"
  by (simp add: js_mul_def js_div_def bytesPerSecond_eq fl_numeral)

lemma startByte_5000: "js_mul (js_div 5000 1000) bytesPerSecond = 240000"
  by (simp add: js_mul_def js_div_def bytesPerSecond_eq fl_numeral)

lemma startByte_10000: "js_mul (js_div 10000 1000) bytesPerSecond = 480000"
  by (simp add: js_mul_def js_div_def bytesPerSecond_eq fl_numeral)

lemma finalTotalBytes_0: "finalTotalBytes 0 = 96000"
  by (simp add: finalTotalBytes_def js_add_def js_mul_def js_div_def bytesPerSecond_eq fl_numeral)

lemma finalTotalBytes_1000: "finalTotalBytes 1000 = 144000"
  by (simp add: finalTotalBytes_def js_add_def js_mul_def js_div_def bytesPerSecond_eq fl_numeral)

lemma finalTotalBytes_6000: "finalTotalBytes 6000 = 384000"
  by (simp add: finalTotalBytes_def js_add_def js_mul_def js_div_def bytesPerSecond_eq fl_numeral)

lemma finalTotalBytes_9000: "finalTotalBytes 9000 = 528000"
  by (simp add: finalTotalBytes_def js_add_def js_mul_def js_div_def bytesPerSecond_eq fl_numeral)

lemma finalTotalBytes_47: "finalTotalBytes 47 = 98258"
  by (simp add: finalTotalBytes_def js_add_def js_mul_def js_div_def bytesPerSecond_eq fl_numeral
        fl_2047 fl_2047_product ceiling_rat_numeral Let_def)

lemma line_audio_sel:
  "startTimeMs (line_audio i a s e) = s" "endTimeMs (line_audio i a s e) = e"
  "status_line (line_audio i a s e) = Done" "audioData (line_audio i a s e) = Some a"
  "payload (line_audio i a s e) = a"
  by (simp_all add: line_audio_def payload_def)

lemma truthy_Some: "truthy (Some a) = (a \<noteq> [])"
  by (simp add: truthy_def)

text \<open>
  C6, as the code has it. Whenever the timed merge returns its output, at least one line
  was included and the length of the output is the ceiling of
  \<^verbatim>\<open>((lastEndTimeMs + 2000) / 1000) * 48000\<close>, evaluated in double arithmetic in this
  order, made even by adding one if it is odd; \<open>lastEndTimeMs\<close> is the greatest end time of
  the included lines. The placement loop never changes the length of the canvas. For a
  last end time between 0 and \<open>2 ^ 40\<close> ms this length is \<open>48 * (lastEndTimeMs + 2000)\<close>
  or two bytes more.
\<close>

theorem mergeTimed_output_length:
  assumes "mergeTimed ls = Inr out"
  shows "successfulTimedLines ls \<noteq> []
         \<and> int (length out) =
             (let lastEndTimeMs = Max (set (endTimes (successfulTimedLines ls)));
                  totalBytes = \<lceil>js_mul (js_div (js_add (of_int lastEndTimeMs) 2000) 1000) 48000\<rceil>
              in if even totalBytes then totalBytes else totalBytes + 1)
         \<and> (0 \<le> Max (set (endTimes (successfulTimedLines ls)))
               \<and> Max (set (endTimes (successfulTimedLines ls))) < 2 ^ 40 \<longrightarrow>
             int (length out) = 48 * (Max (set (endTimes (successfulTimedLines ls))) + 2000)
             \<or> int (length out) = 48 * (Max (set (endTimes (successfulTimedLines ls))) + 2000) + 2)"
proof -
  note l = mergeTimed_length [OF assms]
  have m: "Math_max (endTimes (successfulTimedLines ls)) = Max (set (endTimes (successfulTimedLines ls)))"
    using l(1) by (simp add: Math_max_Max endTimes_successful_ne)
  have "int (length out) =
             (let lastEndTimeMs = Max (set (endTimes (successfulTimedLines ls)));
                  totalBytes = \<lceil>js_mul (js_div (js_add (of_int lastEndTimeMs) 2000) 1000) 48000\<rceil>
              in if even totalBytes then totalBytes else totalBytes + 1)"
    using l(2) unfolding m
    by (simp add: finalTotalBytes_def Let_def bytesPerSecond_eq even_iff_mod_2_eq_zero)
  moreover have "int (length out) = 48 * (Max (set (endTimes (successfulTimedLines ls))) + 2000)
        \<or> int (length out) = 48 * (Max (set (endTimes (successfulTimedLines ls))) + 2000) + 2"
    if "0 \<le> Max (set (endTimes (successfulTimedLines ls)))"
      "Max (set (endTimes (successfulTimedLines ls))) < 2 ^ 40"
    using finalTotalBytes_bounds [OF that] l(2) unfolding m by simp
  ultimately show ?thesis using l(1) by blast
qed

lemma mergeTimed_lines_timed:
  "mergeTimed lines_timed =
     Inr ([1, 2, 3] @ replicate 95997 0 @ [4, 5] @ replicate 143998 0 @ [1, 2, 3] @ replicate 143997 0)"
proof -
  let ?l1 = "line_audio ''001'' ''AQID'' (Some 0) (Some 1000)"
  let ?l2 = "line_audio ''002'' ''BAU='' (Some 2000) (Some 3000)"
  let ?l3 = "line_audio ''003'' ''AQID'' (Some 5000) (Some 6000)"
  let ?m1 = "[1, 2, 3] @ replicate 383997 (0::byte)"
  let ?m2 = "[1, 2, 3] @ replicate 95997 0 @ [4, 5] @ replicate 287998 (0::byte)"
  let ?m3 = "[1, 2, 3] @ replicate 95997 0 @ [4, 5] @ replicate 143998 0 @ [1, 2, 3]
               @ replicate 143997 (0::byte)"
  have s: "successfulTimedLines lines_timed = [?l1, ?l2, ?l3]"
    by (simp add: successfulTimedLines_def lines_timed_def line_audio_sel truthy_Some)
  have e: "Math_max (endTimes [?l1, ?l2, ?l3]) = 6000"
    by (simp add: endTimes_def line_audio_sel)
  have p1: "placeLine ?l1 (replicate 384000 0) = Inr ?m1"
    using placeLine_fits [of ?l1 0 "[1, 2, 3]" 0 "replicate 384000 0"]
    by (simp add: line_audio_sel truthy_Some decode_AQID startByte_0)
  have p2: "placeLine ?l2 ?m1 = Inr ?m2"
    using placeLine_fits [of ?l2 2000 "[4, 5]" 96000 ?m1]
    by (simp add: line_audio_sel truthy_Some decode_BAU startByte_2000)
  have p3: "placeLine ?l3 ?m2 = Inr ?m3"
    using placeLine_fits [of ?l3 5000 "[1, 2, 3]" 240000 ?m2]
    by (simp add: line_audio_sel truthy_Some decode_AQID startByte_5000)
  have p: "placeLines [?l1, ?l2, ?l3] (replicate 384000 0) = Inr ?m3"
    by (simp only: placeLines.simps p1 p2 p3 bind_e_Inr)
  have n: "new_Uint8Array 384000 = Inr (replicate 384000 0)"
    by (simp add: new_Uint8Array_def)
  have "mergeTimed lines_timed =
          bind_e (new_Uint8Array (finalTotalBytes (Math_max (endTimes [?l1, ?l2, ?l3]))))
            (placeLines [?l1, ?l2, ?l3])"
    by (simp add: mergeTimed_def s Let_def del: placeLines.simps)
  also have "\<dots> = Inr ?m3"
    by (simp only: e finalTotalBytes_6000 n bind_e_Inr p)
  finally show ?thesis .
qed

text \<open>
  Three lines at \<open>[0, 1000]\<close>, \<open>[2000, 3000]\<close> and \<open>[5000, 6000]\<close>: the canvas has
  \<open>384000\<close> bytes and is zero outside the three chunks.
\<close>

theorem mergeTimed_output_length_witness:
  "mergeTimed lines_timed =
     Inr ([1, 2, 3] @ replicate 95997 0 @ [4, 5] @ replicate 143998 0 @ [1, 2, 3] @ replicate 143997 0)
   \<and> (successfulTimedLines lines_timed \<noteq> []
       \<and> int (length ([1, 2, 3] @ replicate 95997 0 @ [4, 5] @ replicate 143998 0 @ [1, 2, 3]
                        @ replicate 143997 (0::byte))) =
             (let lastEndTimeMs = Max (set (endTimes (successfulTimedLines lines_timed)));
                  totalBytes = \<lceil>js_mul (js_div (js_add (of_int lastEndTimeMs) 2000) 1000) 48000\<rceil>
              in if even totalBytes then totalBytes else totalBytes + 1))
   \<and> int (length ([1, 2, 3] @ replicate 95997 0 @ [4, 5] @ replicate 143998 0 @ [1, 2, 3]
                    @ replicate 143997 (0::byte))) = 384000"
  using mergeTimed_lines_timed mergeTimed_output_length [OF mergeTimed_lines_timed]
  by simp

text \<open>
  C6 read in exact arithmetic fails. For a last end time of 47 ms the formula of the claim
  gives \<open>48 * 2047 = 98256\<close> bytes; the doubles give \<open>98256.00000000001\<close>, whose ceiling
  \<open>98257\<close> is odd, and the output has \<open>98258\<close> bytes.
\<close>

theorem mergeTimed_length_47:
  "mergeTimed [line_47] = Inr ([1, 2, 3] @ replicate 98255 0)
   \<and> int (length ([1, 2, 3] @ replicate 98255 (0::byte))) = 98258
   \<and> (let totalBytes = \<lceil>(of_int (47 + 2000) :: rat) / 1000 * 48000\<rceil>
       in if even totalBytes then totalBytes else totalBytes + 1) = 98256"
proof -
  have s: "successfulTimedLines [line_47] = [line_47]"
    by (simp add: successfulTimedLines_def line_47_def line_audio_sel truthy_Some)
  have e: "Math_max (endTimes [line_47]) = 47"
    by (simp add: endTimes_def line_47_def line_audio_sel truthy_Some)
  have p: "placeLine line_47 (replicate 98258 0) = Inr ([1, 2, 3] @ replicate 98255 0)"
    using placeLine_fits [of line_47 0 "[1, 2, 3]" 0 "replicate 98258 0"]
    by (simp add: line_47_def line_audio_sel truthy_Some decode_AQID startByte_0)
  have "mergeTimed [line_47] = Inr ([1, 2, 3] @ replicate 98255 0)"
    by (simp add: mergeTimed_def s e finalTotalBytes_47 new_Uint8Array_def bind_e_Inr p)
  then show ?thesis by simp
qed

text \<open>
  C7 at a failing input. A line that starts at 10 s and whose end time is 0 (what
  \<^verbatim>\<open>parseSrtTimestamp\<close> returns for an end stamp it cannot parse): the canvas has \<open>96000\<close>
  bytes and the chunk starts at byte \<open>480000\<close>. \<^verbatim>\<open>slice\<close> with the negative end
  \<open>96000 - 480000\<close> returns the empty array, \<^verbatim>\<open>set\<close> at an offset beyond the end raises
  \<^verbatim>\<open>RangeError\<close>, and the whole merge fails: the error is stored and nothing is offered for
  download.
\<close>

theorem placeLine_start_beyond_canvas:
  "placeLine line_late (replicate 96000 0) = Inl RangeError
   \<and> mergeTimed [line_late] = Inl RangeError
   \<and> globalError (fst (handleDownloadSrtMerged (app_of [file_of Done [line_late]]) ''a.txt-1''))
       = Some RangeError
   \<and> snd (handleDownloadSrtMerged (app_of [file_of Done [line_late]]) ''a.txt-1'') = None"
proof -
  have s: "successfulTimedLines [line_late] = [line_late]"
    by (simp add: successfulTimedLines_def line_late_def line_audio_sel truthy_Some)
  have e: "Math_max (endTimes [line_late]) = 0"
    by (simp add: endTimes_def line_late_def line_audio_sel truthy_Some)
  have p: "placeLine line_late (replicate 96000 0) = Inl RangeError"
    using placeLine_beyond [of line_late 10000 "[1, 2, 3]" 480000 "replicate 96000 0"]
    by (simp add: line_late_def line_audio_sel truthy_Some decode_AQID startByte_10000)
  have m: "mergeTimed [line_late] = Inl RangeError"
    by (simp add: mergeTimed_def s e finalTotalBytes_0 new_Uint8Array_def bind_e_Inr bind_e_Inl p)
  have f: "find (\<lambda>f. id_file f = ''a.txt-1'') (files (app_of [file_of Done [line_late]]))
             = Some (file_of Done [line_late])"
    by (simp add: app_of_def file_of_def)
  have l: "lines (file_of Done [line_late]) = [line_late]" by (simp add: file_of_def)
  have h: "handleDownloadSrtMerged (app_of [file_of Done [line_late]]) ''a.txt-1''
      = ((app_of [file_of Done [line_late]])
           \<lparr>files := setIsMerging ''a.txt-1'' True (files (app_of [file_of Done [line_late]])),
            globalError := None\<rparr>
           \<lparr>globalError := Some RangeError,
            files := setIsMerging ''a.txt-1'' False
                       (setIsMerging ''a.txt-1'' True (files (app_of [file_of Done [line_late]])))\<rparr>,
         None)"
    by (simp add: handleDownloadSrtMerged_def mergeHandler_def f l m bind_e_Inl Let_def)
  show ?thesis by (simp add: p m h)
qed

text \<open>
  C10. A line that is \<open>Done\<close>, carries audio and an end time, but has no start time: it
  is among the included lines and its end time is among those whose maximum sizes the
  canvas; the placement loop leaves the canvas as it is at this line; and the result of the
  merge does not depend on the audio of the line.
\<close>

theorem timed_line_without_start:
  assumes "line \<in> set ls" "status_line line = Done" "truthy (audioData line)"
    and "endTimeMs line = Some e" "startTimeMs line = None"
  shows "line \<in> set (successfulTimedLines ls)
       \<and> e \<in> set (endTimes (successfulTimedLines ls))
       \<and> e \<le> Math_max (endTimes (successfulTimedLines ls))
       \<and> (\<forall>mergedPcm. placeLine line mergedPcm = Inr mergedPcm)
       \<and> (\<forall>a. a \<noteq> [] \<longrightarrow>
             mergeTimed (map (\<lambda>l. if l = line then l\<lparr>audioData := Some a\<rparr> else l) ls)
               = mergeTimed ls)"
proof -
  have in_s: "line \<in> set (successfulTimedLines ls)"
    using assms by (simp add: successfulTimedLines_def)
  have in_e: "e \<in> set (endTimes (successfulTimedLines ls))"
    using in_s assms(4) by (force simp: endTimes_def)
  then have ne: "endTimes (successfulTimedLines ls) \<noteq> []" by auto
  have le: "e \<le> Math_max (endTimes (successfulTimedLines ls))"
    using in_e by (simp add: Math_max_Max [OF ne])
  have skip: "placeLine line mergedPcm = Inr mergedPcm" for mergedPcm
    using assms(5) by (rule placeLine_skips)
  have same: "mergeTimed (map (\<lambda>l. if l = line then l\<lparr>audioData := Some a\<rparr> else l) ls) = mergeTimed ls"
    if a: "a \<noteq> []" for a
  proof -
    define g where "g = (\<lambda>l. if l = line then l\<lparr>audioData := Some a\<rparr> else l)"
    have keep: "(status_line (g l) = Done \<and> truthy (audioData (g l)) \<and> endTimeMs (g l) \<noteq> None)
                  = (status_line l = Done \<and> truthy (audioData l) \<and> endTimeMs l \<noteq> None)" for l
      using assms a by (simp add: g_def truthy_def)
    have s: "successfulTimedLines (map g ls) = map g (successfulTimedLines ls)"
      unfolding successfulTimedLines_def filter_map o_def by (simp only: keep)
    have "endTimeMs (g l) = endTimeMs l" for l
      by (simp add: g_def)
    then have et: "endTimes (map g xs) = endTimes xs" for xs
      by (simp add: endTimes_def o_def)
    have pl: "placeLine (g l) m = placeLine l m" for l m
      using assms(5) by (simp add: g_def placeLine_def)
    have pls: "placeLines (map g xs) m = placeLines xs m" for xs m
      by (induction xs arbitrary: m) (simp_all add: pl bind_e_def split: sum.splits)
    have pls': "placeLines (map g xs) = placeLines xs" for xs
      by (rule ext) (rule pls)
    show ?thesis
      unfolding g_def [symmetric]
      by (simp add: mergeTimed_def s et pls' Let_def)
  qed
  from in_s in_e le skip same show ?thesis by blast
qed

lemma mergeTimed_first: "mergeTimed [line_first] = Inr ([1, 2, 3] @ replicate 143997 0)"
proof -
  have s: "successfulTimedLines [line_first] = [line_first]"
    by (simp add: successfulTimedLines_def line_first_def line_audio_sel truthy_Some)
  have e: "Math_max (endTimes [line_first]) = 1000"
    by (simp add: endTimes_def line_first_def line_audio_sel)
  have p: "placeLine line_first (replicate 144000 0) = Inr ([1, 2, 3] @ replicate 143997 0)"
    using placeLine_fits [of line_first 0 "[1, 2, 3]" 0 "replicate 144000 0"]
    by (simp add: line_first_def line_audio_sel truthy_Some decode_AQID startByte_0)
  show ?thesis
    by (simp add: mergeTimed_def s e finalTotalBytes_1000 new_Uint8Array_def bind_e_Inr p)
qed

lemma mergeTimed_first_no_start:
  "mergeTimed [line_first, line_no_start] = Inr ([1, 2, 3] @ replicate 527997 0)"
proof -
  have s: "successfulTimedLines [line_first, line_no_start] = [line_first, line_no_start]"
    by (simp add: successfulTimedLines_def line_first_def line_no_start_def line_audio_sel truthy_Some)
  have e: "Math_max (endTimes [line_first, line_no_start]) = 9000"
    by (simp add: endTimes_def line_first_def line_no_start_def line_audio_sel)
  have p: "placeLine line_first (replicate 528000 0) = Inr ([1, 2, 3] @ replicate 527997 0)"
    using placeLine_fits [of line_first 0 "[1, 2, 3]" 0 "replicate 528000 0"]
    by (simp add: line_first_def line_audio_sel truthy_Some decode_AQID startByte_0)
  have q: "placeLine line_no_start m = Inr m" for m
    by (rule placeLine_skips) (simp add: line_no_start_def line_audio_sel)
  show ?thesis
    by (simp add: mergeTimed_def s e finalTotalBytes_9000 new_Uint8Array_def bind_e_Inr p q)
qed

text \<open>
  A line at \<open>[0, 1000]\<close> and a line without start that ends at 9 s: the output has
  \<open>528000\<close> bytes instead of \<open>144000\<close>, and all bytes after the first chunk are zero.
\<close>

theorem timed_line_without_start_witness:
  "line_no_start \<in> set [line_first, line_no_start] \<and> status_line line_no_start = Done
   \<and> truthy (audioData line_no_start) \<and> endTimeMs line_no_start = Some 9000
   \<and> startTimeMs line_no_start = None
   \<and> (line_no_start \<in> set (successfulTimedLines [line_first, line_no_start])
       \<and> 9000 \<in> set (endTimes (successfulTimedLines [line_first, line_no_start]))
       \<and> 9000 \<le> Math_max (endTimes (successfulTimedLines [line_first, line_no_start]))
       \<and> (\<forall>mergedPcm. placeLine line_no_start mergedPcm = Inr mergedPcm)
       \<and> mergeTimed (map (\<lambda>l. if l = line_no_start then l\<lparr>audioData := Some ''AQID''\<rparr> else l)
                         [line_first, line_no_start])
             = mergeTimed [line_first, line_no_start])
   \<and> mergeTimed [line_first, line_no_start] = Inr ([1, 2, 3] @ replicate 527997 0)
   \<and> mergeTimed [line_first] = Inr ([1, 2, 3] @ replicate 143997 0)"
proof -
  have h: "line_no_start \<in> set [line_first, line_no_start]" "status_line line_no_start = Done"
    "truthy (audioData line_no_start)" "endTimeMs line_no_start = Some 9000"
    "startTimeMs line_no_start = None"
    by (simp_all add: line_no_start_def line_audio_sel truthy_Some)
  have a: "''AQID'' \<noteq> []" by simp
  from timed_line_without_start [OF h] h a mergeTimed_first mergeTimed_first_no_start
  show ?thesis by blast
qed


end
